theory Spec2Isabelle
  imports Complex_Main "HOL-Library.Sublist" "HOL-Library.Multiset"
begin

section \<open>Errors\<close>

text \<open>
  The Python exceptions that the modelled functions can raise. A function that can raise
  returns \<open>error + 'a\<close>, with \<open>Inl\<close> for the exception.
\<close>

datatype error = ZeroDivisionError | KeyError | ValueError | ConnectError

section \<open>Python floats\<close>

text \<open>
  A Python float is an IEEE 754 double: a finite number, an infinity or \<open>nan\<close>. A finite
  double is modelled by the real number it stands for, the two zeros being one. \<open>rnd\<close>
  rounds a real number to the nearest double, a tie going to the even significand: the
  unit in the last place of \<open>x\<close> is \<open>2\<close> to the power \<open>max (e - 52) (-1074)\<close>, where
  \<open>e\<close> is the binary exponent of \<open>x\<close>, and a result of magnitude \<open>2 ^ 1024\<close> or more is
  an infinity.
\<close>

datatype pyfloat = Num real | PInf | NInf | NaN

definition pow2 :: "int \<Rightarrow> real" where
  "pow2 e = (if 0 \<le> e then 2 ^ nat e else 1 / 2 ^ nat (- e))"

definition round_half_even :: "real \<Rightarrow> int" where
  "round_half_even x =
     (let f = \<lfloor>x\<rfloor>; d = x - of_int f
      in if d < 1 / 2 then f else if d > 1 / 2 then f + 1
         else if even f then f else f + 1)"

definition exponent_of :: "real \<Rightarrow> int" where
  "exponent_of x = \<lfloor>log 2 \<bar>x\<bar>\<rfloor>"

definition rnd :: "real \<Rightarrow> pyfloat" where
  "rnd x =
     (if x = 0 then Num 0
      else
        let e = max (exponent_of x - 52) (- 1074);
            y = of_int (round_half_even (x / pow2 e)) * pow2 e
        in if 2 ^ 1024 \<le> y then PInf
           else if y \<le> - (2 ^ 1024) then NInf
           else Num y)"

text \<open>
  The operations of Python on floats: each is the exact operation followed by \<open>rnd\<close>,
  with the rules of IEEE 754 for the infinities and \<open>nan\<close>. A division by zero raises.
  Every comparison with \<open>nan\<close> is false.
\<close>

fun fneg :: "pyfloat \<Rightarrow> pyfloat" where
  "fneg (Num x) = Num (- x)"
| "fneg PInf = NInf"
| "fneg NInf = PInf"
| "fneg NaN = NaN"

fun fadd :: "pyfloat \<Rightarrow> pyfloat \<Rightarrow> pyfloat" where
  "fadd (Num x) (Num y) = rnd (x + y)"
| "fadd NaN b = NaN"
| "fadd a NaN = NaN"
| "fadd PInf NInf = NaN"
| "fadd NInf PInf = NaN"
| "fadd PInf b = PInf"
| "fadd NInf b = NInf"
| "fadd a PInf = PInf"
| "fadd a NInf = NInf"

definition fsub :: "pyfloat \<Rightarrow> pyfloat \<Rightarrow> pyfloat" where
  "fsub a b = fadd a (fneg b)"

definition infinity :: "bool \<Rightarrow> pyfloat" where
  "infinity positive = (if positive then PInf else NInf)"

fun fmul :: "pyfloat \<Rightarrow> pyfloat \<Rightarrow> pyfloat" where
  "fmul (Num x) (Num y) = rnd (x * y)"
| "fmul NaN b = NaN"
| "fmul a NaN = NaN"
| "fmul (Num x) PInf = (if x = 0 then NaN else infinity (0 < x))"
| "fmul (Num x) NInf = (if x = 0 then NaN else infinity (x < 0))"
| "fmul PInf (Num y) = (if y = 0 then NaN else infinity (0 < y))"
| "fmul NInf (Num y) = (if y = 0 then NaN else infinity (y < 0))"
| "fmul PInf PInf = PInf"
| "fmul PInf NInf = NInf"
| "fmul NInf PInf = NInf"
| "fmul NInf NInf = PInf"

fun fdiv :: "pyfloat \<Rightarrow> pyfloat \<Rightarrow> error + pyfloat" where
  "fdiv a (Num y) =
     (if y = 0 then Inl ZeroDivisionError
      else (case a of
              Num x \<Rightarrow> Inr (rnd (x / y))
            | PInf \<Rightarrow> Inr (infinity (0 < y))
            | NInf \<Rightarrow> Inr (infinity (y < 0))
            | NaN \<Rightarrow> Inr NaN))"
| "fdiv a NaN = Inr NaN"
| "fdiv (Num x) b = Inr (Num 0)"
| "fdiv a b = Inr NaN"

fun fabs :: "pyfloat \<Rightarrow> pyfloat" where
  "fabs (Num x) = Num \<bar>x\<bar>"
| "fabs PInf = PInf"
| "fabs NInf = PInf"
| "fabs NaN = NaN"

fun flt :: "pyfloat \<Rightarrow> pyfloat \<Rightarrow> bool" where
  "flt (Num x) (Num y) = (x < y)"
| "flt NaN b = False"
| "flt a NaN = False"
| "flt a NInf = False"
| "flt PInf b = False"
| "flt NInf b = True"
| "flt a PInf = True"

definition fle :: "pyfloat \<Rightarrow> pyfloat \<Rightarrow> bool" where
  "fle a b \<longleftrightarrow> flt a b \<or> (a = b \<and> a \<noteq> NaN)"

definition float_of_int :: "int \<Rightarrow> pyfloat" where
  "float_of_int n = rnd (of_int n)"

definition py_sum :: "pyfloat list \<Rightarrow> pyfloat" where
  "py_sum xs = foldl fadd (Num 0) xs"

text \<open>
  \<open>sum(xs)\<close> starts from the integer 0 and adds the elements from the left, each addition
  rounded (this is the \<open>sum\<close> of CPython up to 3.11; from 3.12 on it carries a
  compensation term). \<open>len(xs)\<close> becomes a float when a float is divided by it.
\<close>

definition average :: "pyfloat list \<Rightarrow> error + pyfloat" where
  "average xs = fdiv (py_sum xs) (float_of_int (int (length xs)))"

section \<open>The analyser (lib/analysis.py)\<close>

text \<open>
  A sample as \<open>Analysis.analyse\<close> builds it before calling \<open>predict\<close>: the dictionary
  with the keys \<open>time_diff\<close>, \<open>cache_status_1\<close> and \<open>cache_status_2\<close>.
\<close>

record request_pair =
  time_diff :: pyfloat
  cache_status_1 :: string
  cache_status_2 :: string

text \<open>
  \<open>x ** y\<close> on floats is the \<open>pow\<close> of the C library, which is accurate to about one
  unit in the last place but not specified bit for bit: it is a parameter \<open>pw\<close> of the
  model. (Python turns a range error of \<open>pow\<close> into \<open>OverflowError\<close>; that needs a
  deviation above \<open>10 ^ 154\<close> milliseconds and is left out: \<open>pw\<close> returns a float.)
\<close>

type_synonym power = "pyfloat \<Rightarrow> pyfloat \<Rightarrow> pyfloat"

text \<open>
  The standard deviation as the source writes it, three times:
  \<open>(sum([(x - average) ** 2 for x in xs]) / len(xs)) ** 0.5\<close>.
\<close>

definition std :: "power \<Rightarrow> pyfloat list \<Rightarrow> pyfloat \<Rightarrow> error + pyfloat" where
  "std pw xs avg =
     (case average (map (\<lambda>x. pw (fsub x avg) (Num 2)) xs) of
        Inl e \<Rightarrow> Inl e
      | Inr v \<Rightarrow> Inr (pw v (Num (1 / 2))))"

text \<open>
  \<open>remove_outliers(data, factor)\<close>: the average and the standard deviation are computed
  once, on the data as given. \<open>len(data) = 0\<close> makes the first division raise.
\<close>

definition remove_outliers :: "power \<Rightarrow> request_pair list \<Rightarrow> int \<Rightarrow> error + request_pair list" where
  "remove_outliers pw data factor =
     (case average (map time_diff data) of
        Inl e \<Rightarrow> Inl e
      | Inr avg \<Rightarrow>
          (case std pw (map time_diff data) avg of
             Inl e \<Rightarrow> Inl e
           | Inr sd \<Rightarrow>
               Inr (filter (\<lambda>request_pair.
                      flt (fabs (fsub (time_diff request_pair) avg))
                          (fmul (float_of_int factor) sd)) data)))"

text \<open>
  \<open>predict(randomized, fixed)\<close>. \<open>stats.ttest_ind(a, b, equal_var=False)\<close> belongs to
  SciPy and is a parameter of the model: it maps the two samples to the pair \<open>(t, p)\<close>.
  \<open>alpha\<close> is the double written \<open>0.01\<close>. The averages and standard deviations that
  the source computes only to print them are left out; they cannot raise, the lists
  being non-empty at that point. The result is \<open>Some ''CACHE''\<close>,
  \<open>Some ''NO cache''\<close>, or \<open>None\<close> for the bare \<open>return\<close>.
\<close>

type_synonym ttest = "pyfloat list \<Rightarrow> pyfloat list \<Rightarrow> pyfloat \<times> pyfloat"

definition alpha :: pyfloat where
  "alpha = rnd (1 / 100)"

definition predict ::
  "power \<Rightarrow> ttest \<Rightarrow> request_pair list \<Rightarrow> request_pair list \<Rightarrow> error + string option" where
  "predict pw ttest_ind randomized fixed =
     (case remove_outliers pw randomized 2 of
        Inl e \<Rightarrow> Inl e
      | Inr randomized' \<Rightarrow>
         (case remove_outliers pw fixed 2 of
            Inl e \<Rightarrow> Inl e
          | Inr fixed' \<Rightarrow>
             if length randomized' = 0 \<or> length fixed' = 0 then Inr None
             else
               (case average (map time_diff fixed') of
                  Inl e \<Rightarrow> Inl e
                | Inr fixed_average \<Rightarrow>
                    let enhancing_factor = Num 5 in
                    if flt (Num 0) fixed_average then Inr (Some ''NO cache'')
                    else
                      let (t, p) = ttest_ind
                             (map time_diff randomized')
                             (map (\<lambda>request_pair.
                                     if flt fixed_average (Num 0)
                                     then fmul (time_diff request_pair) enhancing_factor
                                     else time_diff request_pair) fixed')
                      in if fle p alpha then Inr (Some ''CACHE'')
                         else Inr (Some ''NO cache''))))"

text \<open>
  A measurement as the controllers store it: \<open>{'time_diff': ..., 'first': {...},
  'second': {...}}\<close>, with the response dictionaries holding \<open>url\<close>,
  \<open>status_code\<close>, \<open>cache_status\<close> and \<open>headers\<close>. Python dictionaries are maps.
\<close>

type_synonym headers = "string \<rightharpoonup> string"

record response_info =
  r_url :: string
  status_code :: string
  cache_status :: string
  r_headers :: headers

record sent_pair =
  sp_time_diff :: pyfloat
  first :: response_info
  second :: response_info

text \<open>
  \<open>round(x, 2)\<close>: the value of \<open>x\<close> is rounded to the nearest multiple of one hundredth,
  a tie going to the even one, and the double nearest to that decimal is returned; an
  infinity or \<open>nan\<close> is returned as it is.
\<close>

fun round2 :: "pyfloat \<Rightarrow> pyfloat" where
  "round2 (Num x) = rnd (of_int (round_half_even (x * 100)) / 100)"
| "round2 a = a"

definition to_request_pair :: "sent_pair \<Rightarrow> request_pair" where
  "to_request_pair request_pair =
     \<lparr>time_diff = round2 (sp_time_diff request_pair),
      cache_status_1 = cache_status (first request_pair),
      cache_status_2 = cache_status (second request_pair)\<rparr>"

text \<open>
  The label of one bucket (lines 130 to 141 of \<open>Analysis.analyse\<close>, and the same lines of
  \<open>utils/analyse-experiment.py\<close>): \<open>randomized\<close> and \<open>fixed\<close> are the lists built for
  \<open>predict\<close>, \<open>data_fixed\<close> is the stored \<open>fixed\<close> list.
\<close>

definition has_status :: "string \<Rightarrow> request_pair list \<Rightarrow> bool" where
  "has_status st pairs =
     list_ex (\<lambda>request_pair. cache_status_1 request_pair = st \<or> cache_status_2 request_pair = st) pairs"

definition count_second :: "string \<Rightarrow> sent_pair list \<Rightarrow> nat" where
  "count_second st data_fixed =
     sum_list (map (\<lambda>_. 1) (filter (\<lambda>request_pair. cache_status (second request_pair) = st) data_fixed))"

definition label_of :: "request_pair list \<Rightarrow> request_pair list \<Rightarrow> sent_pair list \<Rightarrow> string" where
  "label_of randomized fixed data_fixed =
     (let label = ''Unknown'';
          label = (if has_status ''HIT'' randomized \<or> has_status ''HIT'' fixed \<or>
                      has_status ''MISS'' randomized \<or> has_status ''MISS'' fixed
                   then ''NO cache'' else label);
          label = (if count_second ''HIT'' data_fixed > count_second ''MISS'' data_fixed
                   then ''CACHE'' else label)
      in label)"

record verdict =
  label :: string
  statistics_prediction :: string
  v_randomized :: "request_pair list"
  v_fixed :: "request_pair list"

text \<open>
  A bucket \<open>data[url][extension][mode]\<close>: each of the keys \<open>randomized\<close> and \<open>fixed\<close>
  is present or not.
\<close>

record bucket =
  randomized_pairs :: "sent_pair list option"
  fixed_pairs :: "sent_pair list option"

text \<open>
  What the body of the innermost loop of \<open>analyse\<close> does with one bucket: \<open>continue\<close>
  with an empty entry, \<open>return\<close> from \<open>analyse\<close> without a result, or store a verdict.
\<close>

datatype bucket_step = No_data | Give_up | Entry verdict

definition analyse_bucket ::
  "power \<Rightarrow> ttest \<Rightarrow> bucket \<Rightarrow> error + bucket_step" where
  "analyse_bucket pw ttest_ind b =
     (case (randomized_pairs b, fixed_pairs b) of
        (Some data_randomized, Some data_fixed) \<Rightarrow>
          let randomized = map to_request_pair data_randomized;
              fixed = map to_request_pair data_fixed
          in if length fixed = 0 \<or> length randomized = 0 then Inr Give_up
             else (case predict pw ttest_ind randomized fixed of
                     Inl e \<Rightarrow> Inl e
                   | Inr None \<Rightarrow> Inr Give_up
                   | Inr (Some prediction) \<Rightarrow>
                       Inr (Entry \<lparr>label = label_of randomized fixed data_fixed,
                                   statistics_prediction = prediction,
                                   v_randomized = randomized, v_fixed = fixed\<rparr>))
      | _ \<Rightarrow> Inr No_data)"

text \<open>
  \<open>analyse(site, data)\<close>: the nested dictionaries are read as the list of their
  \<open>(url, extension, mode)\<close> buckets in iteration order. The result is \<open>None\<close> for the
  bare \<open>return\<close>, else the analysis, where an entry without data is the empty dictionary.
\<close>

type_synonym bucket_key = "string \<times> string \<times> string"

fun analyse_loop ::
  "power \<Rightarrow> ttest \<Rightarrow> (bucket_key \<times> bucket) list \<Rightarrow>
     (bucket_key \<times> verdict option) list \<Rightarrow> error + (bucket_key \<times> verdict option) list option" where
  "analyse_loop pw ttest_ind [] analysis = Inr (Some analysis)"
| "analyse_loop pw ttest_ind ((k, b) # rest) analysis =
     (case analyse_bucket pw ttest_ind b of
        Inl e \<Rightarrow> Inl e
      | Inr No_data \<Rightarrow> analyse_loop pw ttest_ind rest (analysis @ [(k, None)])
      | Inr Give_up \<Rightarrow> Inr None
      | Inr (Entry v) \<Rightarrow> analyse_loop pw ttest_ind rest (analysis @ [(k, Some v)]))"

definition analyse ::
  "power \<Rightarrow> ttest \<Rightarrow> (bucket_key \<times> bucket) list \<Rightarrow>
     error + (bucket_key \<times> verdict option) list option" where
  "analyse pw ttest_ind data = analyse_loop pw ttest_ind data []"

section \<open>Strings\<close>

text \<open>
  The string methods of Python that the sources use, on strings whose characters are
  the code points below 256: \<open>s.lower()\<close> (the capitals are \<open>A\<close> to \<open>Z\<close> and
  the code points 192 to 222 but 215), \<open>s.strip()\<close>, \<open>s.split(sep)\<close> for a separator
  of one character, \<open>a in b\<close> (a substring test) and \<open>s.startswith(p)\<close>.
\<close>

definition lower_char :: "char \<Rightarrow> char" where
  "lower_char c =
     (let n = (of_char c :: nat)
      in if (65 \<le> n \<and> n \<le> 90) \<or> (192 \<le> n \<and> n \<le> 222 \<and> n \<noteq> 215)
         then char_of (n + 32) else c)"

definition lower :: "string \<Rightarrow> string" where
  "lower s = map lower_char s"

definition is_space :: "char \<Rightarrow> bool" where
  "is_space c = ((of_char c :: nat) \<in> set [9, 10, 11, 12, 13, 28, 29, 30, 31, 32, 133, 160])"

definition strip :: "string \<Rightarrow> string" where
  "strip s = rev (dropWhile is_space (rev (dropWhile is_space s)))"

fun split_on :: "char \<Rightarrow> string \<Rightarrow> string list" where
  "split_on sep [] = [[]]"
| "split_on sep (c # cs) =
     (if c = sep then [] # split_on sep cs
      else (case split_on sep cs of [] \<Rightarrow> [[c]] | w # ws \<Rightarrow> (c # w) # ws))"

definition contains :: "string \<Rightarrow> string \<Rightarrow> bool" where
  "contains a b = sublist a b"

definition startswith :: "string \<Rightarrow> string \<Rightarrow> bool" where
  "startswith s p = prefix p s"

definition endswith :: "string \<Rightarrow> string \<Rightarrow> bool" where
  "endswith s p = suffix p s"

section \<open>The cache buster (lib/cache\_buster.py)\<close>

text \<open>
  \<open>urlparse\<close> and \<open>urlunparse\<close> belong to \<open>urllib\<close> and are parameters of the model.
  \<open>urlunparse\<close> takes the six components; the result of \<open>urlparse\<close> has them as fields,
  and the property \<open>port\<close> besides: \<open>None\<close> when the authority names no port, and
  \<open>ValueError\<close>, raised when the property is read, for a port that is not a number
  of at most 65535.
\<close>

record url_parts =
  u_scheme :: string
  u_netloc :: string
  u_path :: string
  u_params :: string
  u_query :: string
  u_fragment :: string

record parse_result = url_parts +
  u_port :: "error + nat option"

definition parts_of :: "parse_result \<Rightarrow> url_parts" where
  "parts_of parsed =
     \<lparr>u_scheme = u_scheme parsed, u_netloc = u_netloc parsed, u_path = u_path parsed,
      u_params = u_params parsed, u_query = u_query parsed, u_fragment = u_fragment parsed\<rparr>"

definition TEST_HEADERS :: "string list" where
  "TEST_HEADERS =
     [''Origin'', ''User-Agent'', ''X-Forwarded-Host'',
      ''X-Forwarded-For'', ''X-Forwarded-Proto'',
      ''X-Method-Override'', ''X-Forwarded-Scheme'']"

definition ascii_letters :: string where
  "ascii_letters = ''abcdefghijklmnopqrstuvwxyzABCDEFGHIJKLMNOPQRSTUVWXYZ''"

text \<open>
  The state that the cache buster works on. \<open>_cache_busters\<close> is an attribute of the
  class \<open>CacheBuster\<close>, never assigned through an instance, so all instances append to
  the one list. The random generator is a tape \<open>R\<close> of natural numbers, one cell for each
  call of \<open>random.choice\<close>, and \<open>rng_pos\<close> is the next cell to read.
\<close>

record cb_state =
  cache_busters :: "string list"
  rng_pos :: nat

definition choice :: "(nat \<Rightarrow> nat) \<Rightarrow> nat \<Rightarrow> 'a list \<Rightarrow> 'a \<times> nat" where
  "choice R pos seq = (seq ! (R pos mod length seq), Suc pos)"

fun generate_random_string :: "(nat \<Rightarrow> nat) \<Rightarrow> nat \<Rightarrow> nat \<Rightarrow> string \<times> nat" where
  "generate_random_string R pos 0 = ([], pos)"
| "generate_random_string R pos (Suc n) =
     (case choice R pos ascii_letters of
        (c, pos') \<Rightarrow> (case generate_random_string R pos' n of (s, pos'') \<Rightarrow> (c # s, pos'')))"

text \<open>
  The loop of \<open>get_unique_cache_buster\<close>. It runs for as long as the random strings
  collide with the ledger or are empty, which may be for ever: the result \<open>None\<close>
  stands for a loop that does not end.
\<close>

partial_function (option) unique_loop ::
  "(nat \<Rightarrow> nat) \<Rightarrow> nat \<Rightarrow> string list \<Rightarrow> string \<Rightarrow> nat \<Rightarrow> (string \<times> nat) option" where
  "unique_loop R len ledger cache_buster pos =
     (if cache_buster \<in> set ledger \<or> cache_buster = []
      then (case generate_random_string R pos len of
              (s, pos') \<Rightarrow> unique_loop R len ledger s pos')
      else Some (cache_buster, pos))"

definition get_unique_cache_buster ::
  "(nat \<Rightarrow> nat) \<Rightarrow> nat \<Rightarrow> cb_state \<Rightarrow> (string \<times> cb_state) option" where
  "get_unique_cache_buster R len st =
     (case unique_loop R len (cache_busters st) [] (rng_pos st) of
        None \<Rightarrow> None
      | Some (cache_buster, pos) \<Rightarrow>
          Some (cache_buster,
                \<lparr>cache_busters = cache_busters st @ [cache_buster], rng_pos = pos\<rparr>))"

text \<open>
  \<open>cache_bust_header(site, header, value)\<close>. Every branch of the source calls
  \<open>get_unique_cache_buster()\<close> exactly once, with the default length 5, and the tests do
  not depend on the ledger, so the call is made first.
\<close>

definition header_value :: "string \<Rightarrow> string \<Rightarrow> string \<Rightarrow> string \<Rightarrow> string" where
  "header_value site header val tok =
     (let h = lower header in
      if h = ''user-agent'' then val @ '' '' @ tok
      else if h = ''accept-encoding'' then (if val = [] then [] @ tok else val @ '', '' @ tok)
      else if h = ''accept'' then
        ''text/html,application/xhtml+xml,application/xml;q=0.9,image/avif,image/webp,*/*;q=0.8,'' @ tok
      else if h = ''accept-language'' then ''it-IT,it;q=0.9,'' @ tok
      else if h = ''origin'' then ''https://'' @ site @ ''/'' @ tok
      else if h = ''x-forwarded-scheme'' \<or> (contains ''x-'' h \<and> contains ''forwarded-proto'' h)
        then ''http'' @ tok
      else if contains ''x-'' h \<and> contains ''method'' h then ''GET'' @ tok
      else if (contains ''x-'' h \<and> (contains ''forwarded'' h \<or> contains ''-url'' h)) \<or>
              h = ''forwarded''
        then tok @ ''.'' @ site
      else tok)"

definition cache_bust_header ::
  "(nat \<Rightarrow> nat) \<Rightarrow> string \<Rightarrow> string \<Rightarrow> string \<Rightarrow> cb_state \<Rightarrow> (string \<times> cb_state) option" where
  "cache_bust_header R site header val st =
     (case get_unique_cache_buster R 5 st of
        None \<Rightarrow> None
      | Some (tok, st') \<Rightarrow> Some (header_value site header val tok, st'))"

definition cache_bust_cookies ::
  "(nat \<Rightarrow> nat) \<Rightarrow> headers \<Rightarrow> bool \<Rightarrow> cb_state \<Rightarrow> (headers \<times> cb_state) option" where
  "cache_bust_cookies R cookies cache_bust_all st =
     (case get_unique_cache_buster R 5 st of
        None \<Rightarrow> None
      | Some (cache_buster, st') \<Rightarrow>
          let cookies' =
                (if cache_bust_all
                 then (\<lambda>cookie. map_option (\<lambda>v. v @ '','' @ cache_buster) (cookies cookie))
                 else cookies)
          in Some (cookies'(cache_buster \<mapsto> cache_buster), st'))"

definition cache_bust_query ::
  "(nat \<Rightarrow> nat) \<Rightarrow> (string \<Rightarrow> parse_result) \<Rightarrow> (url_parts \<Rightarrow> string) \<Rightarrow>
     string \<Rightarrow> cb_state \<Rightarrow> (string \<times> cb_state) option" where
  "cache_bust_query R urlparse urlunparse url st =
     (case get_unique_cache_buster R 5 st of
        None \<Rightarrow> None
      | Some (cache_buster, st') \<Rightarrow>
          let parsed = urlparse url;
              query = u_query parsed @ (if u_query parsed \<noteq> [] then ''&'' else []) @
                      cache_buster @ ''='' @ cache_buster
          in Some (urlunparse ((parts_of parsed)\<lparr>u_query := query\<rparr>), st'))"

definition cache_bust_path ::
  "(nat \<Rightarrow> nat) \<Rightarrow> (string \<Rightarrow> parse_result) \<Rightarrow> (url_parts \<Rightarrow> string) \<Rightarrow>
     string \<Rightarrow> cb_state \<Rightarrow> (string \<times> cb_state) option" where
  "cache_bust_path R urlparse urlunparse url st =
     (case get_unique_cache_buster R 5 st of
        None \<Rightarrow> None
      | Some (cache_buster, st') \<Rightarrow>
          let parsed = urlparse url;
              path = (if endswith (u_path parsed) ''/'' then u_path parsed @ cache_buster
                      else u_path parsed @ ''/'' @ cache_buster)
          in Some (urlunparse ((parts_of parsed)\<lparr>u_path := path\<rparr>), st'))"

text \<open>The two loops of \<open>cache_bust_request\<close>, over \<open>TEST_HEADERS\<close> and over the Vary list.\<close>

fun bust_test_headers ::
  "(nat \<Rightarrow> nat) \<Rightarrow> string \<Rightarrow> string list \<Rightarrow> headers \<Rightarrow> cb_state \<Rightarrow> (headers \<times> cb_state) option" where
  "bust_test_headers R site [] headers st = Some (headers, st)"
| "bust_test_headers R site (header # rest) headers st =
     (case cache_bust_header R site header
             (case headers header of Some v \<Rightarrow> v | None \<Rightarrow> []) st of
        None \<Rightarrow> None
      | Some (v, st') \<Rightarrow> bust_test_headers R site rest (headers(header \<mapsto> v)) st')"

fun bust_vary_headers ::
  "(nat \<Rightarrow> nat) \<Rightarrow> string \<Rightarrow> string list \<Rightarrow> headers \<Rightarrow> cb_state \<Rightarrow> (headers \<times> cb_state) option" where
  "bust_vary_headers R site [] headers st = Some (headers, st)"
| "bust_vary_headers R site (item # rest) headers st =
     (let header = lower (strip item) in
      if list_ex (\<lambda>h. contains header (lower h)) TEST_HEADERS \<or> header = ''cookie''
      then bust_vary_headers R site rest headers st
      else (case cache_bust_header R site header
                   (case headers header of Some v \<Rightarrow> v | None \<Rightarrow> []) st of
              None \<Rightarrow> None
            | Some (v, st') \<Rightarrow> bust_vary_headers R site rest (headers(header \<mapsto> v)) st'))"

definition cache_bust_request ::
  "(nat \<Rightarrow> nat) \<Rightarrow> (string \<Rightarrow> parse_result) \<Rightarrow> (url_parts \<Rightarrow> string) \<Rightarrow>
     string \<Rightarrow> headers \<Rightarrow> headers \<Rightarrow> string \<Rightarrow> bool \<Rightarrow> cb_state \<Rightarrow>
     ((string \<times> headers \<times> headers) \<times> cb_state) option" where
  "cache_bust_request R urlparse urlunparse url headers cookies vary path st =
     (let site = u_netloc (urlparse url) in
      case (if path then cache_bust_path R urlparse urlunparse url st else Some (url, st)) of
        None \<Rightarrow> None
      | Some (url1, st1) \<Rightarrow>
      (case cache_bust_query R urlparse urlunparse url1 st1 of
        None \<Rightarrow> None
      | Some (url2, st2) \<Rightarrow>
      (case bust_test_headers R site TEST_HEADERS headers st2 of
        None \<Rightarrow> None
      | Some (headers1, st3) \<Rightarrow>
      (case cache_bust_cookies R cookies True st3 of
        None \<Rightarrow> None
      | Some (cookies1, st4) \<Rightarrow>
      (case bust_vary_headers R site (split_on CHR '','' vary) headers1 st4 of
        None \<Rightarrow> None
      | Some (headers2, st5) \<Rightarrow> Some ((url2, headers2, cookies1), st5))))))"

text \<open>
  A run of calls of \<open>get_unique_cache_buster\<close>, each made on some instance of the
  class and with some length. The method reads nothing of the instance but the list of
  the class.
\<close>

record cb_instance =
  cb_site :: string
  cb_headers :: headers
  cb_cookies :: headers

fun issue_tokens ::
  "(nat \<Rightarrow> nat) \<Rightarrow> (cb_instance \<times> nat) list \<Rightarrow> cb_state \<Rightarrow> (string list \<times> cb_state) option" where
  "issue_tokens R [] st = Some ([], st)"
| "issue_tokens R ((self, len) # calls) st =
     (case get_unique_cache_buster R len st of
        None \<Rightarrow> None
      | Some (tok, st') \<Rightarrow>
          (case issue_tokens R calls st' of
             None \<Rightarrow> None
           | Some (toks, st'') \<Rightarrow> Some (tok # toks, st'')))"

definition initial_state :: cb_state where
  "initial_state = \<lparr>cache_busters = [], rng_pos = 0\<rparr>"

section \<open>The request descriptor (lib/h2time.py)\<close>

record h2request =
  req_method :: string
  req_url :: "string option"
  req_scheme :: "string option"
  req_host :: "string option"
  req_port :: "nat option"
  req_path :: "string option"
  req_query :: "string option"
  req_headers :: headers
  req_data :: string

text \<open>
  \<open>set_url\<close>. The conditional expression binds weaker than \<open>or\<close>: the source line
  \<open>parsed.port or 443 if self.scheme == 'https' else 80\<close> is
  \<open>(parsed.port or 443) if self.scheme == 'https' else 80\<close>, and \<open>x or 443\<close> is 443
  when \<open>x\<close> is \<open>None\<close> or 0. The port is read under \<open>https\<close> only, and reading
  it raises \<open>ValueError\<close> when the authority has a port that is not a number up to
  65535: the fields \<open>url\<close>, \<open>scheme\<close> and \<open>host\<close> are assigned by then and the
  others are not. The result is the object as the call leaves it, and the error raised.
\<close>

definition port_or :: "nat option \<Rightarrow> nat \<Rightarrow> nat" where
  "port_or p d = (case p of None \<Rightarrow> d | Some n \<Rightarrow> if n = 0 then d else n)"

definition set_url ::
  "(string \<Rightarrow> parse_result) \<Rightarrow> h2request \<Rightarrow> string \<Rightarrow> h2request \<times> error option" where
  "set_url urlparse self url =
     (let parsed = urlparse url;
          scheme = u_scheme parsed;
          self1 = self\<lparr>req_url := Some url, req_scheme := Some scheme,
                       req_host := Some (u_netloc parsed)\<rparr>
      in case (if scheme = ''https''
               then (case u_port parsed of
                       Inl e \<Rightarrow> Inl e
                     | Inr p \<Rightarrow> Inr (port_or p 443))
               else Inr 80) of
           Inl e \<Rightarrow> (self1, Some e)
         | Inr port \<Rightarrow>
             (self1\<lparr>req_port := Some port,
                    req_path := Some (u_path parsed),
                    req_query := Some (u_query parsed)\<rparr>, None))"

text \<open>The constructor: it returns the object unless \<open>set_url\<close> raises.\<close>

definition new_request ::
  "(string \<Rightarrow> parse_result) \<Rightarrow> string \<Rightarrow> string \<Rightarrow> headers option \<Rightarrow> string \<Rightarrow>
     error + h2request" where
  "new_request urlparse method url headers data =
     (case set_url urlparse
             \<lparr>req_method = method, req_url = None, req_scheme = None, req_host = None,
              req_port = None, req_path = None, req_query = None,
              req_headers = (case headers of Some h \<Rightarrow> h | None \<Rightarrow> Map.empty),
              req_data = data\<rparr> url of
        (self, None) \<Rightarrow> Inr self
      | (self, Some e) \<Rightarrow> Inl e)"

text \<open>
  The port as the specification words it: the explicit port when the authority has one,
  else 443 for \<open>https\<close> and 80 for \<open>http\<close>.
\<close>

definition port_spec :: "parse_result \<Rightarrow> nat option" where
  "port_spec parsed =
     (case u_port parsed of
        Inr (Some n) \<Rightarrow> Some n
      | Inr None \<Rightarrow> if u_scheme parsed = ''https'' then Some 443
                      else if u_scheme parsed = ''http'' then Some 80 else None
      | Inl e \<Rightarrow> None)"

section \<open>Following redirects (experiment-wcd.py, the randomized round)\<close>

text \<open>
  One result of \<open>run_attack\<close>: the time difference, the two header dictionaries and the
  two bodies. A round of \<open>H2Time\<close> either fails to connect (the exception leaves the
  loop), raises in \<open>run_attack\<close> (caught, the loop is left by \<open>break\<close>), or returns a list
  of results. The network is a sequence of such rounds, \<open>net i\<close> being what round
  number \<open>i\<close> of the pair meets.
\<close>

type_synonym attack_result = "pyfloat \<times> headers \<times> headers \<times> string \<times> string"

datatype round = Connect_failed | Attack_failed | Results "attack_result list"

text \<open>
  The variables of the loop, with the effects it has outside: the list
  \<open>sent_requests[url][extension][mode]['randomized']\<close> (absent at first),
  \<open>statistics['cache_headers']\<close>, and the number of rounds run so far.
\<close>

record pair_state =
  url1 :: string
  url2 :: string
  following_redirects :: bool
  redirects_followed :: nat
  randomized_bucket :: "sent_pair list option"
  cache_headers :: bool
  rounds :: nat

definition lookup :: "headers \<Rightarrow> string \<Rightarrow> error + string" where
  "lookup h k = (case h k of None \<Rightarrow> Inl KeyError | Some v \<Rightarrow> Inr v)"

text \<open>
  The test for a redirect, with the short-circuit evaluation of \<open>or\<close>: a missing
  \<open>:status\<close> raises only when it is read.
\<close>

definition is_redirect :: "headers \<Rightarrow> headers \<Rightarrow> error + bool" where
  "is_redirect response_headers1 response_headers2 =
     (case lookup response_headers1 '':status'' of
        Inl e \<Rightarrow> Inl e
      | Inr s1 \<Rightarrow>
          if s1 = ''301'' \<or> s1 = ''302'' then Inr True
          else (case lookup response_headers2 '':status'' of
                  Inl e \<Rightarrow> Inl e
                | Inr s2 \<Rightarrow> Inr (s2 = ''301'' \<or> s2 = ''302'')))"

definition redirect_target ::
  "(string \<Rightarrow> parse_result) \<Rightarrow> (url_parts \<Rightarrow> string) \<Rightarrow> string \<Rightarrow> headers \<Rightarrow> string" where
  "redirect_target urlparse urlunparse u response_headers =
     (case response_headers ''location'' of
        None \<Rightarrow> u
      | Some location \<Rightarrow>
          if startswith location ''http'' then location
          else urlunparse ((parts_of (urlparse u))\<lparr>u_path := location\<rparr>))"

text \<open>
  The redirect branch: the check for a redirect loop reads \<open>location\<close> of the first
  response, and of the second one unless the first comparison holds; it only logs. Then
  the URLs are rewritten, the flag is set and the counter is incremented.
\<close>

definition on_redirect ::
  "(string \<Rightarrow> parse_result) \<Rightarrow> (url_parts \<Rightarrow> string) \<Rightarrow> pair_state \<Rightarrow> headers \<Rightarrow> headers \<Rightarrow>
     pair_state \<times> error option" where
  "on_redirect urlparse urlunparse s response_headers1 response_headers2 =
     (case lookup response_headers1 ''location'' of
        Inl e \<Rightarrow> (s, Some e)
      | Inr location1 \<Rightarrow>
          (case (if url1 s = location1 then Inr True
                 else (case lookup response_headers2 ''location'' of
                         Inl e \<Rightarrow> Inl e
                       | Inr location2 \<Rightarrow> Inr (url2 s = location2))) of
             Inl e \<Rightarrow> (s, Some e)
           | Inr loop_detected \<Rightarrow>
               (s\<lparr>url1 := redirect_target urlparse urlunparse (url1 s) response_headers1,
                   url2 := redirect_target urlparse urlunparse (url2 s) response_headers2,
                   following_redirects := True,
                   redirects_followed := redirects_followed s + 1\<rparr>, None)))"

text \<open>
  The body of \<open>for result in results\<close>. \<open>cache_headers_heuristics\<close> belongs to the module
  \<open>wcde\<close> and is a parameter. The second component of the result tells how the loop was
  left: \<open>None\<close> when it ran to its end or by \<open>break\<close>, \<open>Some e\<close> by an exception.
\<close>

fun process_results ::
  "(string \<Rightarrow> parse_result) \<Rightarrow> (url_parts \<Rightarrow> string) \<Rightarrow> (headers \<Rightarrow> string) \<Rightarrow>
     pair_state \<Rightarrow> attack_result list \<Rightarrow> pair_state \<times> error option" where
  "process_results urlparse urlunparse cache_headers_heuristics s [] = (s, None)"
| "process_results urlparse urlunparse cache_headers_heuristics s
       ((td, response_headers1, response_headers2, response_body1, response_body2) # results) =
     (let cache_status1 = cache_headers_heuristics response_headers1;
          cache_status2 = cache_headers_heuristics response_headers2;
          s1 = (if cache_status1 \<noteq> ''-'' \<or> cache_status2 \<noteq> ''-''
                then s\<lparr>cache_headers := True\<rparr> else s)
      in case is_redirect response_headers1 response_headers2 of
           Inl e \<Rightarrow> (s1, Some e)
         | Inr True \<Rightarrow> on_redirect urlparse urlunparse s1 response_headers1 response_headers2
         | Inr False \<Rightarrow>
             (case lookup response_headers1 '':status'' of
                Inl e \<Rightarrow> (s1, Some e)
              | Inr status1 \<Rightarrow>
                 (case lookup response_headers2 '':status'' of
                    Inl e \<Rightarrow> (s1, Some e)
                  | Inr status2 \<Rightarrow>
                      process_results urlparse urlunparse cache_headers_heuristics
                        (s1\<lparr>randomized_bucket :=
                             Some ((case randomized_bucket s1 of None \<Rightarrow> [] | Some l \<Rightarrow> l) @
                               [\<lparr>sp_time_diff = td,
                                 first = \<lparr>r_url = url1 s1, status_code = status1,
                                          cache_status = cache_status1,
                                          r_headers = response_headers1\<rparr>,
                                 second = \<lparr>r_url = url2 s1, status_code = status2,
                                           cache_status = cache_status2,
                                           r_headers = response_headers2\<rparr>\<rparr>])\<rparr>)
                        results)))"

text \<open>
  One pass through the body of \<open>while following_redirects and redirects_followed < 5\<close>.
\<close>

definition loop_body ::
  "(string \<Rightarrow> parse_result) \<Rightarrow> (url_parts \<Rightarrow> string) \<Rightarrow> (headers \<Rightarrow> string) \<Rightarrow>
     (nat \<Rightarrow> round) \<Rightarrow> pair_state \<Rightarrow> pair_state \<times> error option \<times> bool" where
  "loop_body urlparse urlunparse cache_headers_heuristics net s =
     (let s0 = s\<lparr>following_redirects := False, rounds := rounds s + 1\<rparr>
      in case net (rounds s) of
           Connect_failed \<Rightarrow> (s0, Some ConnectError, True)
         | Attack_failed \<Rightarrow> (s0, None, True)
         | Results results \<Rightarrow>
             (case process_results urlparse urlunparse cache_headers_heuristics s0 results of
                (s1, Some e) \<Rightarrow> (s1, Some e, True)
              | (s1, None) \<Rightarrow> (s1, None, False)))"

function follow_redirects ::
  "(string \<Rightarrow> parse_result) \<Rightarrow> (url_parts \<Rightarrow> string) \<Rightarrow> (headers \<Rightarrow> string) \<Rightarrow>
     (nat \<Rightarrow> round) \<Rightarrow> pair_state \<Rightarrow> pair_state \<times> error option" where
  "follow_redirects urlparse urlunparse cache_headers_heuristics net s =
     (if following_redirects s \<and> redirects_followed s < 5
      then (case loop_body urlparse urlunparse cache_headers_heuristics net s of
              (s', err, left) \<Rightarrow>
                if left then (s', err)
                else follow_redirects urlparse urlunparse cache_headers_heuristics net s')
      else (s, None))"
  by pat_completeness auto

termination follow_redirects
proof (relation "measure (\<lambda>(urlparse, urlunparse, h, net, s).
          2 * (5 - redirects_followed s) + (if following_redirects s then 1 else 0))", goal_cases)
  case 1
  show ?case by simp
next
  case (2 urlparse urlunparse h net s s' y err left)
  have step: "(following_redirects t' \<and> redirects_followed t' = redirects_followed t + 1) \<or>
              (\<not> following_redirects t' \<and> redirects_followed t' = redirects_followed t)"
    if "process_results urlparse urlunparse h t rs = (t', None)" "\<not> following_redirects t"
    for t t' rs
    using that
  proof (induction urlparse urlunparse h t rs rule: process_results.induct)
    case (1 urlparse urlunparse cache_headers_heuristics s)
    then show ?case by simp
  next
    case (2 urlparse urlunparse cache_headers_heuristics s td h1 h2 b1 b2 results)
    then show ?case
      by (auto simp: Let_def on_redirect_def split: sum.splits bool.splits if_splits)
  qed
  from 2 obtain rs where
    "process_results urlparse urlunparse h
       (s\<lparr>following_redirects := False, rounds := rounds s + 1\<rparr>) rs = (s', None)"
    by (auto simp: loop_body_def Let_def split: round.splits prod.splits option.splits)
  from step[OF this] 2(1)
  show ?case
    by auto
qed

text \<open>The loop as the controller enters it for a pair: the flag set, the counter at 0.\<close>

definition start_pair :: "string \<Rightarrow> string \<Rightarrow> sent_pair list option \<Rightarrow> bool \<Rightarrow> pair_state" where
  "start_pair u1 u2 bucket seen =
     \<lparr>url1 = u1, url2 = u2, following_redirects = True, redirects_followed = 0,
      randomized_bucket = bucket, cache_headers = seen, rounds = 0\<rparr>"

section \<open>After the fixed round (preliminary-experiment.py)\<close>

text \<open>
  The dictionary \<open>sent_requests\<close> of the preliminary experiment: the keys \<open>first\<close> and
  \<open>second\<close> hold responses of the ordinary client, \<open>randomized\<close> and \<open>fixed\<close> the
  measurements. A key may be absent.
\<close>

record http_response =
  h_url :: string
  h_status_code :: int
  h_cache_status :: string
  h_headers :: headers

record sent_requests =
  sr_first :: "http_response option"
  sr_second :: "http_response option"
  sr_randomized :: "sent_pair list option"
  sr_fixed :: "sent_pair list option"

text \<open>
  \<open>for request in fixed_sent_requests\<close>: the loop runs over a copy and removes from the
  list itself. \<open>list.remove(x)\<close> deletes the first element equal to \<open>x\<close> and raises
  \<open>ValueError\<close> when there is none.
\<close>

fun discard_loop :: "sent_pair list \<Rightarrow> sent_pair list \<Rightarrow> error + sent_pair list" where
  "discard_loop [] fixed = Inr fixed"
| "discard_loop (request # rest) fixed =
     (if cache_status (first request) = ''HIT''
      then (if request \<in> set fixed then discard_loop rest (remove1 request fixed)
            else Inl ValueError)
      else discard_loop rest fixed)"

text \<open>
  What the controller does outside: the output files written (name and content), the
  flag \<open>statistics['tested']\<close>, and the files handed to \<open>utils/analyse-experiment.py\<close>.
\<close>

record effects =
  files :: "(string \<times> sent_requests) list"
  tested :: bool
  analysed :: "string list"

datatype control = Next_url | Stop

text \<open>
  Lines 631 to 662 of \<open>main\<close>: the filter, the test on the number of measurements left
  (\<open>continue\<close>), and otherwise the output file, the flag, the analysis when asked for, and
  \<open>break\<close>. The name of the file depends on the site and the clock and is a parameter.
\<close>

definition after_fixed_round ::
  "bool \<Rightarrow> string \<Rightarrow> sent_requests \<Rightarrow> effects \<Rightarrow> error + control \<times> sent_requests \<times> effects" where
  "after_fixed_round args_analyse filename sent eff =
     (case (case sr_fixed sent of
              None \<Rightarrow> Inr sent
            | Some fixed \<Rightarrow>
                (case discard_loop fixed fixed of
                   Inl e \<Rightarrow> Inl e
                 | Inr fixed' \<Rightarrow> Inr (sent\<lparr>sr_fixed := Some fixed'\<rparr>))) of
        Inl e \<Rightarrow> Inl e
      | Inr sent' \<Rightarrow>
          if (case sr_fixed sent' of Some fixed' \<Rightarrow> length fixed' < 5 | None \<Rightarrow> False)
          then Inr (Next_url, sent', eff)
          else Inr (Stop, sent',
                    eff\<lparr>files := files eff @ [(filename, sent')],
                        tested := True,
                        analysed := (if args_analyse then analysed eff @ [filename]
                                     else analysed eff)\<rparr>))"

section \<open>The wording of the specification\<close>

text \<open>
  The trimming step as the specification words it: a point is dropped when it lies
  farther than \<open>factor\<close> standard deviations from the mean, and kept otherwise.
\<close>

definition remove_outliers_spec :: "power \<Rightarrow> request_pair list \<Rightarrow> int \<Rightarrow> error + request_pair list" where
  "remove_outliers_spec pw data factor =
     (case average (map time_diff data) of
        Inl e \<Rightarrow> Inl e
      | Inr avg \<Rightarrow>
          (case std pw (map time_diff data) avg of
             Inl e \<Rightarrow> Inl e
           | Inr sd \<Rightarrow>
               Inr (filter (\<lambda>request_pair.
                      \<not> flt (fmul (float_of_int factor) sd)
                             (fabs (fsub (time_diff request_pair) avg))) data)))"

text \<open>
  The majority of the second responses of the stored \<open>fixed\<close> list are hits: more than
  half of them.
\<close>

definition majority_hit :: "sent_pair list \<Rightarrow> bool" where
  "majority_hit data_fixed = (2 * count_second ''HIT'' data_fixed > length data_fixed)"

section \<open>Example inputs\<close>

text \<open>
  A power function that is correctly rounded at the exponents 2 and one half, as the
  \<open>pow\<close> of the C library is at the squares and square roots of the examples.
\<close>

fun fsqrt :: "pyfloat \<Rightarrow> pyfloat" where
  "fsqrt (Num x) = (if x < 0 then NaN else rnd (sqrt x))"
| "fsqrt PInf = PInf"
| "fsqrt a = NaN"

definition cr_pow :: power where
  "cr_pow x y = (if y = Num 2 then fmul x x else if y = Num (1 / 2) then fsqrt x else NaN)"

text \<open>Samples and measurements with the fields that matter in the examples.\<close>

definition sample :: "real \<Rightarrow> request_pair" where
  "sample x = \<lparr>time_diff = Num x, cache_status_1 = ''-'', cache_status_2 = ''-''\<rparr>"

definition response :: "string \<Rightarrow> response_info" where
  "response cs = \<lparr>r_url = ''https://example.com/'', status_code = ''200'',
                   cache_status = cs, r_headers = Map.empty\<rparr>"

definition measurement :: "real \<Rightarrow> string \<Rightarrow> string \<Rightarrow> sent_pair" where
  "measurement x cs1 cs2 = \<lparr>sp_time_diff = Num x, first = response cs1, second = response cs2\<rparr>"

text \<open>
  A double that is not an integer is written by its numerator and the exponent of its
  denominator: \<open>dbl n j\<close> is \<open>n / 2 ^ j\<close>.
\<close>

definition dbl :: "int \<Rightarrow> nat \<Rightarrow> real" where
  "dbl n j = of_int n / 2 ^ j"

text \<open>
  Three measurements of \<open>0.1\<close>, which is \<open>dbl 3602879701896397 55\<close>. The source
  computes their mean as \<open>0.10000000000000002\<close>, which is \<open>dbl 7205759403792795 56\<close>.
\<close>

definition tenths :: "request_pair list" where
  "tenths = map sample [dbl 3602879701896397 55, dbl 3602879701896397 55,
                        dbl 3602879701896397 55]"

text \<open>
  The measurements \<open>0.3, 0.3, 0.3, 0.3, 0.8\<close>. In decimal arithmetic the mean is
  \<open>0.4\<close> and the standard deviation \<open>0.2\<close>, so that \<open>0.8\<close> lies at twice the
  deviation from the mean.
\<close>

definition near_boundary :: "request_pair list" where
  "near_boundary =
     map sample [dbl 5404319552844595 54, dbl 5404319552844595 54, dbl 5404319552844595 54,
                 dbl 5404319552844595 54, dbl 3602879701896397 52]"

text \<open>
  The measurements \<open>0.09, -0.59, 0.5\<close>. The three doubles add up to a positive real
  number; the source computes the sum \<open>0.0\<close>.
\<close>

definition zero_mean :: "request_pair list" where
  "zero_mean = map sample [dbl 3242591731706757 55, dbl (- 5314247560297185) 53, dbl 1 1]"

text \<open>A bucket whose stored \<open>fixed\<close> list has one hit among four second responses.\<close>

definition example_fixed :: "sent_pair list" where
  "example_fixed = [measurement 1 ''-'' ''HIT'', measurement 3 ''-'' ''-'',
                    measurement 1 ''-'' ''-'', measurement 3 ''-'' ''-'']"

definition example_randomized :: "sent_pair list" where
  "example_randomized = [measurement (-1) ''-'' ''-'', measurement 1 ''-'' ''-'']"

text \<open>A fixed round of six measurements, two of them with a hit on the first response.\<close>

definition example_round :: "sent_pair list" where
  "example_round =
     [measurement (-2) ''MISS'' ''HIT'', measurement (-1) ''HIT'' ''HIT'',
      measurement (-3) ''MISS'' ''HIT'', measurement (-2) ''MISS'' ''HIT'',
      measurement (-1) ''HIT'' ''HIT'', measurement (-4) ''-'' ''HIT'']"

definition example_sent :: sent_requests where
  "example_sent = \<lparr>sr_first = None, sr_second = None, sr_randomized = Some [],
                    sr_fixed = Some example_round\<rparr>"

definition no_effects :: effects where
  "no_effects = \<lparr>files = [], tested = False, analysed = []\<rparr>"

text \<open>The parse of \<open>http://example.com:8080/\<close>.\<close>

definition example_http_url :: parse_result where
  "example_http_url =
     \<lparr>u_scheme = ''http'', u_netloc = ''example.com:8080'', u_path = ''/'', u_params = [],
      u_query = [], u_fragment = [], u_port = Inr (Some 8080)\<rparr>"

text \<open>
  The relation between the counters at the head of the redirect loop: every round but
  the one that did not ask for another has followed a redirect.
\<close>

definition loop_inv :: "pair_state \<Rightarrow> bool" where
  "loop_inv s \<longleftrightarrow> redirects_followed s \<le> rounds s \<and> rounds s \<le> 5 \<and>
      rounds s \<le> redirects_followed s + (if following_redirects s then 0 else 1)"

text \<open>
  A server that answers every round with a redirect to the URL that was requested.
\<close>

definition self_redirect :: "string \<Rightarrow> nat \<Rightarrow> round" where
  "self_redirect u i =
     Results [(Num 0, ['':status'' \<mapsto> ''301'', ''location'' \<mapsto> u],
               ['':status'' \<mapsto> ''301'', ''location'' \<mapsto> u], [], [])]"

text \<open>
  A tape on which the second string drawn repeats the first, and two instances of the
  class.
\<close>

definition example_tape :: "nat \<Rightarrow> nat" where
  "example_tape n = n div 10"

definition example_instance :: "string \<Rightarrow> cb_instance" where
  "example_instance site = \<lparr>cb_site = site, cb_headers = Map.empty, cb_cookies = Map.empty\<rparr>"

text \<open>
  A tape that yields the strings \<open>aaaaa\<close>, \<open>bbbbb\<close>, ... in turn; the test of the
  Vary loop for leaving a header alone; and the headers after the loop over
  \<open>TEST_HEADERS\<close> on that tape, the query string having taken the first token.
\<close>

definition counting_tape :: "nat \<Rightarrow> nat" where
  "counting_tape n = n div 5"

definition skipped :: "string \<Rightarrow> bool" where
  "skipped header \<longleftrightarrow> list_ex (\<lambda>h. contains header (lower h)) TEST_HEADERS \<or> header = ''cookie''"

definition busted_test_headers :: "string \<Rightarrow> headers" where
  "busted_test_headers site =
     [''Origin'' \<mapsto> header_value site ''Origin'' [] ''bbbbb'',
      ''User-Agent'' \<mapsto> header_value site ''User-Agent'' [] ''ccccc'',
      ''X-Forwarded-Host'' \<mapsto> header_value site ''X-Forwarded-Host'' [] ''ddddd'',
      ''X-Forwarded-For'' \<mapsto> header_value site ''X-Forwarded-For'' [] ''eeeee'',
      ''X-Forwarded-Proto'' \<mapsto> header_value site ''X-Forwarded-Proto'' [] ''fffff'',
      ''X-Method-Override'' \<mapsto> header_value site ''X-Method-Override'' [] ''ggggg'',
      ''X-Forwarded-Scheme'' \<mapsto> header_value site ''X-Forwarded-Scheme'' [] ''hhhhh'']"

section \<open>Properties of the rounding\<close>

lemma pow2_powr: "pow2 e = 2 powr of_int e"
  by (simp add: pow2_def powr_realpow[symmetric] powr_minus divide_inverse)

lemma pow2_pos: "0 < pow2 e"
  by (simp add: pow2_powr)

lemma pow2_add: "pow2 (a + b) = pow2 a * pow2 b"
  by (simp add: pow2_powr powr_add)

lemma exponent_ofI:
  assumes "pow2 k \<le> \<bar>x\<bar>" and "\<bar>x\<bar> < pow2 (k + 1)"
  shows "exponent_of x = k"
proof -
  have pos: "0 < \<bar>x\<bar>" using assms(1) pow2_pos[of k] by linarith
  have "of_int k \<le> log 2 \<bar>x\<bar>"
    using assms(1) pos by (simp add: le_log_iff pow2_powr)
  moreover have "log 2 \<bar>x\<bar> < of_int k + 1"
    using assms(2) pos by (simp add: log_less_iff pow2_powr)
  ultimately show ?thesis
    unfolding exponent_of_def by (simp add: floor_eq_iff)
qed

lemma round_half_even_int: "round_half_even (of_int m) = m"
  by (simp add: round_half_even_def)

lemma rnd_0: "rnd 0 = Num 0"
  by (simp add: rnd_def)

lemma rnd_eval:
  assumes "pow2 k \<le> \<bar>x\<bar>" and "\<bar>x\<bar> < pow2 (k + 1)"
    and "e = max (k - 52) (- 1074)"
    and "round_half_even (x / pow2 e) = m"
    and "\<bar>of_int m * pow2 e\<bar> < 2 ^ 1024"
  shows "rnd x = Num (of_int m * pow2 e)"
proof -
  have "x \<noteq> 0" using assms(1) pow2_pos[of k] by auto
  moreover have "exponent_of x = k" using assms(1,2) by (rule exponent_ofI)
  ultimately show ?thesis
    using assms(3,4,5) by (simp add: rnd_def Let_def abs_less_iff not_le)
qed

lemma exponent_of_bounds:
  assumes "x \<noteq> 0"
  shows "pow2 (exponent_of x) \<le> \<bar>x\<bar>" and "\<bar>x\<bar> < pow2 (exponent_of x + 1)"
proof -
  have pos: "0 < \<bar>x\<bar>" using assms by simp
  have "of_int (exponent_of x) \<le> log 2 \<bar>x\<bar>"
    by (simp add: exponent_of_def)
  then show "pow2 (exponent_of x) \<le> \<bar>x\<bar>"
    using pos by (simp add: le_log_iff pow2_powr)
  have "log 2 \<bar>x\<bar> < of_int (exponent_of x + 1)"
    by (simp add: exponent_of_def)
  then show "\<bar>x\<bar> < pow2 (exponent_of x + 1)"
    using pos by (simp add: log_less_iff pow2_powr)
qed

lemma exponent_of_ge:
  assumes "pow2 k \<le> \<bar>x\<bar>"
  shows "k \<le> exponent_of x"
proof -
  have pos: "0 < \<bar>x\<bar>" using assms pow2_pos[of k] by linarith
  have "of_int k \<le> log 2 \<bar>x\<bar>"
    using assms pos by (simp add: le_log_iff pow2_powr)
  then show ?thesis by (simp add: exponent_of_def le_floor_iff)
qed

lemma exponent_of_less:
  assumes "x \<noteq> 0" and "\<bar>x\<bar> < pow2 k"
  shows "exponent_of x < k"
proof -
  have pos: "0 < \<bar>x\<bar>" using assms by simp
  have "log 2 \<bar>x\<bar> < of_int k"
    using assms pos by (simp add: log_less_iff pow2_powr)
  then show ?thesis by (simp add: exponent_of_def floor_less_iff)
qed

lemma round_half_even_ge_floor: "\<lfloor>z\<rfloor> \<le> round_half_even z"
  by (simp add: round_half_even_def Let_def)

lemma rnd_ge_1:
  assumes "1 \<le> x"
  shows "rnd x \<noteq> Num 0"
proof -
  have nz: "x \<noteq> 0" using assms by simp
  let ?k = "exponent_of x"
  let ?e = "max (?k - 52) (- 1074)"
  have "pow2 0 \<le> \<bar>x\<bar>" using assms by (simp add: pow2_def)
  then have k0: "0 \<le> ?k" by (rule exponent_of_ge)
  then have e: "?e = ?k - 52" by simp
  have "pow2 ?k \<le> \<bar>x\<bar>" using nz by (rule exponent_of_bounds)
  then have "pow2 ?k \<le> x" using assms by simp
  moreover have "pow2 ?k = pow2 52 * pow2 (?k - 52)"
    using pow2_add[of 52 "?k - 52"] by simp
  ultimately have "pow2 52 \<le> x / pow2 ?e"
    unfolding e using pow2_pos[of "?k - 52"] by (simp add: pos_le_divide_eq)
  moreover have "(1::real) \<le> pow2 52" by (simp add: pow2_def)
  ultimately have "1 \<le> x / pow2 ?e" by (rule order_trans[rotated])
  then have "1 \<le> \<lfloor>x / pow2 ?e\<rfloor>" by (simp add: le_floor_iff)
  then have "1 \<le> round_half_even (x / pow2 ?e)"
    using round_half_even_ge_floor[of "x / pow2 ?e"] by linarith
  then have "0 < of_int (round_half_even (x / pow2 ?e)) * pow2 ?e"
    using pow2_pos[of ?e] by simp
  then show ?thesis
    using nz by (auto simp: rnd_def Let_def)
qed

lemma rnd_int:
  assumes "\<bar>n\<bar> < 2 ^ 53"
  shows "rnd (of_int n) = Num (of_int n)"
proof (cases "n = 0")
  case True
  then show ?thesis by (simp add: rnd_0)
next
  case False
  define x :: real where "x = of_int n"
  define k where "k = exponent_of x"
  have nz: "x \<noteq> 0" using False by (simp add: x_def)
  have ax: "\<bar>x\<bar> = of_int \<bar>n\<bar>" by (simp add: x_def)
  have "1 \<le> \<bar>n\<bar>" using False by simp
  then have "(1::real) \<le> of_int \<bar>n\<bar>" by (simp only: of_int_1_le_iff)
  then have "pow2 0 \<le> \<bar>x\<bar>" by (simp add: pow2_def ax)
  then have k0: "0 \<le> k" unfolding k_def by (rule exponent_of_ge)
  have "(of_int \<bar>n\<bar> :: real) < of_int (2 ^ 53)"
    using assms by (simp only: of_int_less_iff)
  then have lt: "\<bar>x\<bar> < 2 ^ 53" by (simp add: ax)
  then have "\<bar>x\<bar> < pow2 53" by (simp add: pow2_def)
  with nz have k53: "k < 53" unfolding k_def by (rule exponent_of_less)
  have e: "max (k - 52) (- 1074) = k - 52" using k0 by simp
  have one: "pow2 (52 - k) * pow2 (k - 52) = 1"
    using pow2_add[of "52 - k" "k - 52"] by (simp add: pow2_def)
  have p: "pow2 (52 - k) = of_int (2 ^ nat (52 - k))"
    using k53 by (simp add: pow2_def)
  have "x / pow2 (k - 52) = x * pow2 (52 - k)"
    using one pow2_pos[of "k - 52"] by (simp add: field_simps)
  also have "\<dots> = of_int (n * 2 ^ nat (52 - k))"
    by (simp add: p x_def)
  finally have "round_half_even (x / pow2 (k - 52)) = n * 2 ^ nat (52 - k)"
    by (simp only: round_half_even_int)
  moreover have "of_int (n * 2 ^ nat (52 - k)) * pow2 (k - 52) = x"
  proof -
    have "of_int (n * 2 ^ nat (52 - k)) * pow2 (k - 52) = x * (pow2 (52 - k) * pow2 (k - 52))"
      by (simp add: p x_def)
    then show ?thesis by (simp only: one mult_1_right)
  qed
  moreover have "\<bar>x\<bar> < 2 ^ 1024"
  proof -
    have "(2::real) ^ 53 \<le> 2 ^ 1024" by (rule power_increasing) simp_all
    with lt show ?thesis by linarith
  qed
  ultimately have "rnd x = Num x"
    using nz e by (simp add: rnd_def Let_def k_def[symmetric] abs_less_iff not_le)
  then show ?thesis by (simp only: x_def)
qed

lemma rnd_numeral: "(numeral w :: int) < 2 ^ 53 \<Longrightarrow> rnd (numeral w) = Num (numeral w)"
  using rnd_int[of "numeral w"] by simp

lemma rnd_neg_numeral:
  "(numeral w :: int) < 2 ^ 53 \<Longrightarrow> rnd (- numeral w) = Num (- numeral w)"
  using rnd_int[of "- numeral w"] by simp

lemma rnd_1: "rnd 1 = Num 1"
  using rnd_int[of 1] by simp

lemma rnd_neg_1: "rnd (- 1) = Num (- 1)"
  using rnd_int[of "- 1"] by simp

lemma float_of_int_pos: "0 < n \<Longrightarrow> float_of_int n \<noteq> Num 0"
  unfolding float_of_int_def by (rule rnd_ge_1) simp

lemma fdiv_returns: "b \<noteq> Num 0 \<Longrightarrow> \<exists>q. fdiv a b = Inr q"
  by (cases b; cases a) simp_all

lemma average_empty: "average [] = Inl ZeroDivisionError"
  by (simp add: average_def float_of_int_def rnd_0)

lemma average_nonempty: "xs \<noteq> [] \<Longrightarrow> \<exists>m. average xs = Inr m"
  unfolding average_def by (rule fdiv_returns, rule float_of_int_pos) simp

lemma std_nonempty: "xs \<noteq> [] \<Longrightarrow> \<exists>sd. std pw xs avg = Inr sd"
  using average_nonempty[of "map (\<lambda>x. pw (fsub x avg) (Num 2)) xs"]
  by (auto simp: std_def)

text \<open>
  Rules that evaluate one rounded operation: \<open>k\<close> is the binary exponent of the exact
  result and \<open>m\<close> its significand after rounding.
\<close>

lemma round_half_even_between:
  assumes "of_int m - 1 / 2 < z" and "z < of_int m + 1 / 2"
  shows "round_half_even z = m"
proof (cases "of_int m \<le> z")
  case True
  then have "\<lfloor>z\<rfloor> = m"
    using assms(2) by (intro floor_unique) auto
  then show ?thesis
    using assms(2) by (simp add: round_half_even_def Let_def)
next
  case False
  then have "\<lfloor>z\<rfloor> = m - 1"
    using assms(1) by (intro floor_unique) auto
  then show ?thesis
    using assms(1) by (simp add: round_half_even_def Let_def)
qed

lemma rnd_to:
  assumes "pow2 k \<le> \<bar>x\<bar>" and "\<bar>x\<bar> < pow2 (k + 1)"
    and "round_half_even (x / pow2 (max (k - 52) (- 1074))) = m"
    and "of_int m * pow2 (max (k - 52) (- 1074)) = z" and "\<bar>z\<bar> < 2 ^ 1024"
  shows "rnd x = Num z"
  using rnd_eval[OF assms(1,2) refl assms(3)] assms(4,5) by simp

lemma fadd_to:
  assumes "pow2 k \<le> \<bar>x + y\<bar>" and "\<bar>x + y\<bar> < pow2 (k + 1)"
    and "round_half_even ((x + y) / pow2 (max (k - 52) (- 1074))) = m"
    and "of_int m * pow2 (max (k - 52) (- 1074)) = z" and "\<bar>z\<bar> < 2 ^ 1024"
  shows "fadd (Num x) (Num y) = Num z"
  using rnd_to[OF assms] by simp

lemma fadd_to_zero: "x + y = 0 \<Longrightarrow> fadd (Num x) (Num y) = Num 0"
  by (simp add: rnd_0)

lemma fsub_to:
  assumes "pow2 k \<le> \<bar>x - y\<bar>" and "\<bar>x - y\<bar> < pow2 (k + 1)"
    and "round_half_even ((x - y) / pow2 (max (k - 52) (- 1074))) = m"
    and "of_int m * pow2 (max (k - 52) (- 1074)) = z" and "\<bar>z\<bar> < 2 ^ 1024"
  shows "fsub (Num x) (Num y) = Num z"
  using rnd_to[OF assms] by (simp add: fsub_def)

lemma fsub_to_zero: "x - y = 0 \<Longrightarrow> fsub (Num x) (Num y) = Num 0"
  by (simp add: fsub_def rnd_0)

lemma float_of_int_small: "\<bar>n\<bar> < 2 ^ 53 \<Longrightarrow> float_of_int n = Num (of_int n)"
  unfolding float_of_int_def by (rule rnd_int)

lemma fdiv_to:
  assumes "pow2 k \<le> \<bar>x / of_int n\<bar>" and "\<bar>x / of_int n\<bar> < pow2 (k + 1)"
    and "round_half_even (x / of_int n / pow2 (max (k - 52) (- 1074))) = m"
    and "of_int m * pow2 (max (k - 52) (- 1074)) = z" and "\<bar>z\<bar> < 2 ^ 1024"
    and "0 < n" and "n < 2 ^ 53"
  shows "fdiv (Num x) (float_of_int n) = Inr (Num z)"
  using rnd_to[OF assms(1-5)] assms(6,7) by (simp add: float_of_int_small)

lemma fdiv_to_zero:
  assumes "x = 0" and "0 < n" and "n < 2 ^ 53"
  shows "fdiv (Num x) (float_of_int n) = Inr (Num 0)"
  using assms by (simp add: float_of_int_small rnd_0)

lemma twice_to:
  assumes "pow2 k \<le> \<bar>2 * x\<bar>" and "\<bar>2 * x\<bar> < pow2 (k + 1)"
    and "round_half_even (2 * x / pow2 (max (k - 52) (- 1074))) = m"
    and "of_int m * pow2 (max (k - 52) (- 1074)) = z" and "\<bar>z\<bar> < 2 ^ 1024"
  shows "fmul (float_of_int 2) (Num x) = Num z"
  using rnd_to[OF assms] by (simp add: float_of_int_def rnd_numeral)

section \<open>Properties of the analyser\<close>

lemma remove_outliers_empty: "remove_outliers pw [] factor = Inl ZeroDivisionError"
  by (simp add: remove_outliers_def average_empty)

lemma remove_outliers_nonempty:
  assumes "data \<noteq> []"
  shows "\<exists>avg sd. average (map time_diff data) = Inr avg \<and>
           std pw (map time_diff data) avg = Inr sd \<and>
           remove_outliers pw data factor =
             Inr (filter (\<lambda>rp. flt (fabs (fsub (time_diff rp) avg))
                                   (fmul (float_of_int factor) sd)) data)"
proof -
  from assms obtain avg where a: "average (map time_diff data) = Inr avg"
    using average_nonempty[of "map time_diff data"] by auto
  from assms obtain sd where s: "std pw (map time_diff data) avg = Inr sd"
    using std_nonempty[of "map time_diff data" pw avg] by auto
  from a s show ?thesis by (simp add: remove_outliers_def)
qed

lemma remove_outliers_returns: "data \<noteq> [] \<Longrightarrow> \<exists>kept. remove_outliers pw data factor = Inr kept"
  using remove_outliers_nonempty[of data pw factor] by auto

text \<open>
  The same rules for the square and the square root of \<open>cr_pow\<close>; the bounds on a
  square root are stated on its square.
\<close>

lemma square_to:
  assumes "pow2 k \<le> \<bar>x * x\<bar>" and "\<bar>x * x\<bar> < pow2 (k + 1)"
    and "round_half_even (x * x / pow2 (max (k - 52) (- 1074))) = m"
    and "of_int m * pow2 (max (k - 52) (- 1074)) = z" and "\<bar>z\<bar> < 2 ^ 1024"
  shows "cr_pow (Num x) (Num 2) = Num z"
  using rnd_to[OF assms] by (simp add: cr_pow_def)

lemma root_to:
  assumes "(pow2 k)\<^sup>2 \<le> v" and "v < (pow2 (k + 1))\<^sup>2" and "1 \<le> m"
    and "((of_int m - 1 / 2) * pow2 (max (k - 52) (- 1074)))\<^sup>2 < v"
    and "v < ((of_int m + 1 / 2) * pow2 (max (k - 52) (- 1074)))\<^sup>2"
    and "of_int m * pow2 (max (k - 52) (- 1074)) = z" and "\<bar>z\<bar> < 2 ^ 1024"
  shows "cr_pow (Num v) (Num (1 / 2)) = Num z"
proof -
  define e where "e = max (k - 52) (- 1074)"
  have pe: "0 < pow2 e"
    by (rule pow2_pos)
  have v: "0 \<le> v"
    using assms(1) zero_le_power2[of "pow2 k"] by linarith
  have lo: "pow2 k \<le> sqrt v"
    using assms(1) by (rule real_le_rsqrt)
  have hi: "sqrt v < pow2 (k + 1)"
    using assms(2) pow2_pos[of "k + 1"] by (intro real_less_lsqrt) simp_all
  have "(of_int m - 1 / 2) * pow2 e < sqrt v"
    using assms(4) unfolding e_def by (rule real_less_rsqrt)
  then have a: "of_int m - 1 / 2 < sqrt v / pow2 e"
    using pe by (simp add: pos_less_divide_eq)
  have "0 \<le> (of_int m + 1 / 2) * pow2 e"
    using assms(3) pe by simp
  then have "sqrt v < (of_int m + 1 / 2) * pow2 e"
    using assms(5) unfolding e_def by (intro real_less_lsqrt) simp_all
  then have b: "sqrt v / pow2 e < of_int m + 1 / 2"
    using pe by (simp add: pos_divide_less_eq)
  have r: "round_half_even (sqrt v / pow2 (max (k - 52) (- 1074))) = m"
    using round_half_even_between[OF a b] by (simp only: e_def)
  have s: "\<bar>sqrt v\<bar> = sqrt v"
    using v by simp
  have "rnd (sqrt v) = Num z"
    by (rule rnd_to[OF _ _ r assms(6,7)]) (simp_all only: s lo hi)
  then show ?thesis
    using v by (simp add: cr_pow_def)
qed

lemma length_2: "int (length [a, b]) = 2"
  by simp

lemma length_3: "int (length [a, b, c]) = 3"
  by simp

lemma length_5: "int (length [a, b, c, d, e]) = 5"
  by simp

lemma time_diff_sample: "time_diff (sample x) = Num x"
  by (simp add: sample_def)

lemma sqrt_4: "sqrt 4 = 2"
  using real_sqrt_abs[of 2] by simp

lemmas float_eval = rnd_numeral rnd_neg_numeral rnd_0 rnd_1 rnd_neg_1 float_of_int_def
  py_sum_def average_def std_def cr_pow_def fsub_def sample_def sqrt_4

lemma trim_kept_all_a:
  "remove_outliers cr_pow (map sample [-1, 1]) 2 = Inr (map sample [-1, 1])"
  by (simp add: remove_outliers_def float_eval)

lemma trim_kept_all_b:
  "remove_outliers cr_pow (map sample [-3, -1]) 2 = Inr (map sample [-3, -1])"
  by (simp add: remove_outliers_def float_eval)

lemma trim_constant_pair: "remove_outliers cr_pow (map sample [1, 1]) 2 = Inr []"
  by (simp add: remove_outliers_def float_eval)

text \<open>
  Claim C2 at the time differences \<open>0, 0, 0, 0, 5\<close>: the mean is 1 and \<open>\<sigma>\<close> is 2, so
  the point 5 lies at the distance 4 from the mean, which is \<open>2\<sigma>\<close> and not more. The
  claim keeps it, and so does the docstring of \<open>remove_outliers\<close>, which removes "the
  data points that are outside the factor * std from the average"; the code drops it,
  its comparison being strict. Every step is exact in doubles here.
\<close>

theorem remove_outliers_drops_boundary:
  "remove_outliers cr_pow (map sample [0, 0, 0, 0, 5]) 2 = Inr (map sample [0, 0, 0, 0]) \<and>
   average (map time_diff (map sample [0, 0, 0, 0, 5])) = Inr (Num 1) \<and>
   std cr_pow (map time_diff (map sample [0, 0, 0, 0, 5])) (Num 1) = Inr (Num 2) \<and>
   remove_outliers_spec cr_pow (map sample [0, 0, 0, 0, 5]) 2 = Inr (map sample [0, 0, 0, 0, 5])"
  by (simp add: remove_outliers_def remove_outliers_spec_def float_eval)

subsection \<open>A point that the rounding keeps\<close>

text \<open>
  The measurements \<open>0.3, 0.3, 0.3, 0.3, 0.8\<close>: the source computes the mean \<open>0.4\<close>,
  the standard deviation \<open>0.20000000000000004\<close> and the bound \<open>0.4000000000000001\<close>;
  the point \<open>0.8\<close> lies at the distance \<open>0.4\<close> from the mean, below the bound, and all
  five points are kept.
\<close>

lemma near_boundary_add_1:
  "fadd (Num 0) (Num (dbl 5404319552844595 54)) = Num (dbl 5404319552844595 54)"
  by (rule fadd_to[where k = "- 2" and m = "5404319552844595"])
    (simp_all add: dbl_def pow2_def round_half_even_def)

lemma near_boundary_add_2:
  "fadd (Num (dbl 5404319552844595 54)) (Num (dbl 5404319552844595 54)) =
     Num (dbl 5404319552844595 53)"
  by (rule fadd_to[where k = "- 1" and m = "5404319552844595"])
    (simp_all add: dbl_def pow2_def round_half_even_def)

lemma near_boundary_add_3:
  "fadd (Num (dbl 5404319552844595 53)) (Num (dbl 5404319552844595 54)) =
     Num (dbl 2026619832316723 51)"
  by (rule fadd_to[where k = "- 1" and m = "8106479329266892"])
    (simp_all add: dbl_def pow2_def round_half_even_def)

lemma near_boundary_add_4:
  "fadd (Num (dbl 2026619832316723 51)) (Num (dbl 5404319552844595 54)) =
     Num (dbl 5404319552844595 52)"
  by (rule fadd_to[where k = "0" and m = "5404319552844595"])
    (simp_all add: dbl_def pow2_def round_half_even_def)

lemma near_boundary_add_5:
  "fadd (Num (dbl 5404319552844595 52)) (Num (dbl 3602879701896397 52)) = Num (dbl 2 0)"
  by (rule fadd_to[where k = "1" and m = "4503599627370496"])
    (simp_all add: dbl_def pow2_def round_half_even_def)

lemma near_boundary_div_1:
  "fdiv (Num (dbl 2 0)) (float_of_int 5) = Inr (Num (dbl 3602879701896397 53))"
  by (rule fdiv_to[where k = "- 2" and m = "7205759403792794"])
    (simp_all add: dbl_def pow2_def round_half_even_def)

lemma near_boundary_average:
  "average (map time_diff near_boundary) = Inr (Num (dbl 3602879701896397 53))"
  by (simp only: near_boundary_def list.map time_diff_sample average_def py_sum_def
      foldl.simps length_5 near_boundary_add_1 near_boundary_add_2 near_boundary_add_3
      near_boundary_add_4 near_boundary_add_5 near_boundary_div_1)

lemma near_boundary_sub_1:
  "fsub (Num (dbl 5404319552844595 54)) (Num (dbl 3602879701896397 53)) =
     Num (dbl (- 1801439850948199) 54)"
  by (rule fsub_to[where k = "- 4" and m = "- 7205759403792796"])
    (simp_all add: dbl_def pow2_def round_half_even_def)

lemma near_boundary_square_1:
  "cr_pow (Num (dbl (- 1801439850948199) 54)) (Num 2) = Num (dbl 5764607523034239 59)"
  by (rule square_to[where k = "- 7" and m = "5764607523034239"])
    (simp_all add: dbl_def pow2_def round_half_even_def)

lemma near_boundary_sub_2:
  "fsub (Num (dbl 3602879701896397 52)) (Num (dbl 3602879701896397 53)) =
     Num (dbl 3602879701896397 53)"
  by (rule fsub_to[where k = "- 2" and m = "7205759403792794"])
    (simp_all add: dbl_def pow2_def round_half_even_def)

lemma near_boundary_square_2:
  "cr_pow (Num (dbl 3602879701896397 53)) (Num 2) = Num (dbl 1441151880758559 53)"
  by (rule square_to[where k = "- 3" and m = "5764607523034236"])
    (simp_all add: dbl_def pow2_def round_half_even_def)

lemma near_boundary_add_6:
  "fadd (Num 0) (Num (dbl 5764607523034239 59)) = Num (dbl 5764607523034239 59)"
  by (rule fadd_to[where k = "- 7" and m = "5764607523034239"])
    (simp_all add: dbl_def pow2_def round_half_even_def)

lemma near_boundary_add_7:
  "fadd (Num (dbl 5764607523034239 59)) (Num (dbl 5764607523034239 59)) =
     Num (dbl 5764607523034239 58)"
  by (rule fadd_to[where k = "- 6" and m = "5764607523034239"])
    (simp_all add: dbl_def pow2_def round_half_even_def)

lemma near_boundary_add_8:
  "fadd (Num (dbl 5764607523034239 58)) (Num (dbl 5764607523034239 59)) =
     Num (dbl 4323455642275679 57)"
  by (rule fadd_to[where k = "- 6" and m = "8646911284551358"])
    (simp_all add: dbl_def pow2_def round_half_even_def)

lemma near_boundary_add_9:
  "fadd (Num (dbl 4323455642275679 57)) (Num (dbl 5764607523034239 59)) =
     Num (dbl 5764607523034239 57)"
  by (rule fadd_to[where k = "- 5" and m = "5764607523034239"])
    (simp_all add: dbl_def pow2_def round_half_even_def)

lemma near_boundary_add_10:
  "fadd (Num (dbl 5764607523034239 57)) (Num (dbl 1441151880758559 53)) =
     Num (dbl 1801439850948199 53)"
  by (rule fadd_to[where k = "- 3" and m = "7205759403792796"])
    (simp_all add: dbl_def pow2_def round_half_even_def)

lemma near_boundary_div_2:
  "fdiv (Num (dbl 1801439850948199 53)) (float_of_int 5) = Inr (Num (dbl 5764607523034237 57))"
  by (rule fdiv_to[where k = "- 5" and m = "5764607523034237"])
    (simp_all add: dbl_def pow2_def round_half_even_def)

lemma near_boundary_root_1:
  "cr_pow (Num (dbl 5764607523034237 57)) (Num (1 / 2)) = Num (dbl 7205759403792795 55)"
  by (rule root_to[where k = "- 3" and m = "7205759403792795"])
    (simp_all add: dbl_def pow2_def power2_eq_square)

lemma near_boundary_std:
  "std cr_pow (map time_diff near_boundary) (Num (dbl 3602879701896397 53)) =
     Inr (Num (dbl 7205759403792795 55))"
  by (simp only: near_boundary_def list.map time_diff_sample std_def average_def py_sum_def
      foldl.simps length_5 near_boundary_sub_1 near_boundary_sub_2 near_boundary_square_1
      near_boundary_square_2 near_boundary_add_6 near_boundary_add_7 near_boundary_add_8
      near_boundary_add_9 near_boundary_add_10 near_boundary_div_2 sum.case
      near_boundary_root_1)

lemma near_boundary_threshold_1:
  "fmul (float_of_int 2) (Num (dbl 7205759403792795 55)) = Num (dbl 7205759403792795 54)"
  by (rule twice_to[where k = "- 2" and m = "7205759403792795"])
    (simp_all add: dbl_def pow2_def round_half_even_def)

lemma near_boundary_within_1:
  "flt (fabs (Num (dbl (- 1801439850948199) 54))) (Num (dbl 7205759403792795 54))"
  by (simp add: dbl_def)

lemma near_boundary_within_2:
  "flt (fabs (Num (dbl 3602879701896397 53))) (Num (dbl 7205759403792795 54))"
  by (simp add: dbl_def)

lemma near_boundary_kept:
  "remove_outliers cr_pow near_boundary 2 = Inr near_boundary"
proof -
  have "remove_outliers cr_pow near_boundary 2 =
      Inr (filter (\<lambda>request_pair.
             flt (fabs (fsub (time_diff request_pair) (Num (dbl 3602879701896397 53))))
                 (Num (dbl 7205759403792795 54))) near_boundary)"
    by (simp only: remove_outliers_def near_boundary_average near_boundary_std sum.case near_boundary_threshold_1)
  also have "\<dots> = Inr near_boundary"
    by (simp only: near_boundary_def list.map filter.simps time_diff_sample
        near_boundary_sub_1 near_boundary_sub_2 near_boundary_within_1
        near_boundary_within_2 if_True)
  finally show ?thesis .
qed

subsection \<open>The verdict\<close>

lemma alpha_value: "alpha = Num (5764607523034235 / 2 ^ 59)"
proof -
  have "rnd (1 / 100) = Num (of_int 5764607523034235 * pow2 (- 59))"
    by (rule rnd_eval[where k = "- 7"]) (simp_all add: pow2_def round_half_even_def)
  then show ?thesis by (simp add: alpha_def pow2_def)
qed

text \<open>
  Claim C1: when both lists are non-empty after the trimming, \<open>predict\<close> answers
  \<open>NO cache\<close> if the mean of the trimmed fixed time differences, as the source computes
  it in doubles, is positive, whatever the t-test would say; otherwise it runs the t-test
  on the trimmed randomized time differences and the trimmed fixed ones, each multiplied
  by 5 exactly when that mean is negative, and answers \<open>CACHE\<close> exactly when
  \<open>p \<le> 0.01\<close>, so also at \<open>p = 0.01\<close>, else \<open>NO cache\<close>.
\<close>

theorem predict_verdict:
  assumes "remove_outliers pw randomized 2 = Inr randomized'"
    and "remove_outliers pw fixed 2 = Inr fixed'"
    and "randomized' \<noteq> []" and "fixed' \<noteq> []"
  shows "\<exists>fixed_average.
     average (map time_diff fixed') = Inr fixed_average \<and>
     predict pw ttest_ind randomized fixed =
       Inr (Some (if flt (Num 0) fixed_average then ''NO cache''
                  else if fle (snd (ttest_ind (map time_diff randomized')
                             (map (\<lambda>rp. if flt fixed_average (Num 0)
                                        then fmul (time_diff rp) (Num 5)
                                        else time_diff rp) fixed'))) alpha
                       then ''CACHE'' else ''NO cache''))"
proof -
  from assms(4) obtain m where m: "average (map time_diff fixed') = Inr m"
    using average_nonempty[of "map time_diff fixed'"] by auto
  show ?thesis
    using assms m by (auto simp add: predict_def Let_def split: prod.splits)
qed

lemma average_example: "average (map time_diff (map sample [-3, -1])) = Inr (Num (- 2))"
  by (simp add: float_eval)

theorem predict_verdict_witness:
  "remove_outliers cr_pow (map sample [-1, 1]) 2 = Inr (map sample [-1, 1]) \<and>
   remove_outliers cr_pow (map sample [-3, -1]) 2 = Inr (map sample [-3, -1]) \<and>
   map sample [-1, 1] \<noteq> [] \<and> map sample [-3, -1] \<noteq> [] \<and>
   average (map time_diff (map sample [-3, -1])) = Inr (Num (- 2)) \<and>
   alpha = Num (5764607523034235 / 2 ^ 59) \<and>
   predict cr_pow
     (\<lambda>a b. if b = [Num (- 15), Num (- 5)] then (Num 0, Num (5764607523034235 / 2 ^ 59))
            else (NaN, NaN))
     (map sample [-1, 1]) (map sample [-3, -1]) = Inr (Some ''CACHE'')"
  using predict_verdict[OF trim_kept_all_a trim_kept_all_b, of
      "\<lambda>a b. if b = [Num (- 15), Num (- 5)] then (Num 0, Num (5764607523034235 / 2 ^ 59))
             else (NaN, NaN)"]
    trim_kept_all_a trim_kept_all_b average_example alpha_value
  by (auto simp add: sample_def rnd_neg_numeral fle_def)

lemma predict_none_if_trim_empty:
  assumes "randomized \<noteq> []" and "fixed \<noteq> []"
    and "remove_outliers pw randomized 2 = Inr [] \<or> remove_outliers pw fixed 2 = Inr []"
  shows "predict pw ttest_ind randomized fixed = Inr None"
proof -
  obtain r' f' where "remove_outliers pw randomized 2 = Inr r'"
    "remove_outliers pw fixed 2 = Inr f'"
    using assms(1,2) remove_outliers_returns by blast
  with assms(3) show ?thesis
    by (auto simp: predict_def)
qed

text \<open>
  Claim C3: for non-empty lists of which one is empty after the trimming, \<open>predict\<close>
  returns no verdict (\<open>None\<close>), and not \<open>NO cache\<close>.
\<close>

theorem predict_undefined:
  assumes "randomized \<noteq> []" and "fixed \<noteq> []"
    and "remove_outliers pw randomized 2 = Inr [] \<or> remove_outliers pw fixed 2 = Inr []"
  shows "predict pw ttest_ind randomized fixed = Inr None \<and>
         predict pw ttest_ind randomized fixed \<noteq> Inr (Some ''NO cache'')"
  using predict_none_if_trim_empty[OF assms] by simp

theorem predict_undefined_witness:
  "map sample [1, 1] \<noteq> [] \<and> map sample [-3, -1] \<noteq> [] \<and>
   remove_outliers cr_pow (map sample [1, 1]) 2 = Inr [] \<and>
   predict cr_pow (\<lambda>a b. (Num 0, Num 0)) (map sample [1, 1]) (map sample [-3, -1]) = Inr None"
  using predict_undefined[of "map sample [1, 1]" "map sample [-3, -1]" cr_pow
      "\<lambda>a b. (Num 0, Num 0)"]
    trim_constant_pair
  by simp

subsection \<open>A mean that the rounding makes zero\<close>

text \<open>
  The fixed measurements \<open>0.09, -0.59, 0.5\<close>: the doubles add up to a positive real
  number, but the source computes the sum \<open>0.0\<close> and the mean \<open>0.0\<close>, which is not
  positive. So \<open>predict\<close> runs the t-test, on the time differences as they are, and the
  verdict is that of the t-test.
\<close>

lemma zero_mean_add_1:
  "fadd (Num 0) (Num (dbl 3242591731706757 55)) = Num (dbl 3242591731706757 55)"
  by (rule fadd_to[where k = "- 4" and m = "6485183463413514"])
    (simp_all add: dbl_def pow2_def round_half_even_def)

lemma zero_mean_add_2:
  "fadd (Num (dbl 3242591731706757 55)) (Num (dbl (- 5314247560297185) 53)) = Num (dbl (- 1) 1)"
  by (rule fadd_to[where k = "- 2" and m = "- 9007199254740992"])
    (simp_all add: dbl_def pow2_def round_half_even_def)

lemma zero_mean_add_3:
  "fadd (Num (dbl (- 1) 1)) (Num (dbl 1 1)) = Num 0"
  by (rule fadd_to_zero) (simp_all add: dbl_def)

lemma zero_mean_div_1:
  "fdiv (Num 0) (float_of_int 3) = Inr (Num 0)"
  by (rule fdiv_to_zero) (simp_all add: dbl_def)

lemma zero_mean_average:
  "average (map time_diff zero_mean) = Inr (Num 0)"
  by (simp only: zero_mean_def list.map time_diff_sample average_def py_sum_def
      foldl.simps length_3 zero_mean_add_1 zero_mean_add_2 zero_mean_add_3 zero_mean_div_1)

lemma zero_mean_sub_1:
  "fsub (Num (dbl 3242591731706757 55)) (Num 0) = Num (dbl 3242591731706757 55)"
  by (rule fsub_to[where k = "- 4" and m = "6485183463413514"])
    (simp_all add: dbl_def pow2_def round_half_even_def)

lemma zero_mean_square_1:
  "cr_pow (Num (dbl 3242591731706757 55)) (Num 2) = Num (dbl 2334666046828865 58)"
  by (rule square_to[where k = "- 7" and m = "4669332093657730"])
    (simp_all add: dbl_def pow2_def round_half_even_def)

lemma zero_mean_sub_2:
  "fsub (Num (dbl (- 5314247560297185) 53)) (Num 0) = Num (dbl (- 5314247560297185) 53)"
  by (rule fsub_to[where k = "- 1" and m = "- 5314247560297185"])
    (simp_all add: dbl_def pow2_def round_half_even_def)

lemma zero_mean_square_2:
  "cr_pow (Num (dbl (- 5314247560297185) 53)) (Num 2) = Num (dbl 3135406060575339 53)"
  by (rule square_to[where k = "- 2" and m = "6270812121150678"])
    (simp_all add: dbl_def pow2_def round_half_even_def)

lemma zero_mean_sub_3:
  "fsub (Num (dbl 1 1)) (Num 0) = Num (dbl 1 1)"
  by (rule fsub_to[where k = "- 1" and m = "4503599627370496"])
    (simp_all add: dbl_def pow2_def round_half_even_def)

lemma zero_mean_square_3:
  "cr_pow (Num (dbl 1 1)) (Num 2) = Num (dbl 1 2)"
  by (rule square_to[where k = "- 2" and m = "4503599627370496"])
    (simp_all add: dbl_def pow2_def round_half_even_def)

lemma zero_mean_add_4:
  "fadd (Num 0) (Num (dbl 2334666046828865 58)) = Num (dbl 2334666046828865 58)"
  by (rule fadd_to[where k = "- 7" and m = "4669332093657730"])
    (simp_all add: dbl_def pow2_def round_half_even_def)

lemma zero_mean_add_5:
  "fadd (Num (dbl 2334666046828865 58)) (Num (dbl 3135406060575339 53)) =
     Num (dbl 3208364374538741 53)"
  by (rule fadd_to[where k = "- 2" and m = "6416728749077482"])
    (simp_all add: dbl_def pow2_def round_half_even_def)

lemma zero_mean_add_6:
  "fadd (Num (dbl 3208364374538741 53)) (Num (dbl 1 2)) = Num (dbl 5460164188223989 53)"
  by (rule fadd_to[where k = "- 1" and m = "5460164188223989"])
    (simp_all add: dbl_def pow2_def round_half_even_def)

lemma zero_mean_div_2:
  "fdiv (Num (dbl 5460164188223989 53)) (float_of_int 3) = Inr (Num (dbl 7280218917631985 55))"
  by (rule fdiv_to[where k = "- 3" and m = "7280218917631985"])
    (simp_all add: dbl_def pow2_def round_half_even_def)

lemma zero_mean_root_1:
  "cr_pow (Num (dbl 7280218917631985 55)) (Num (1 / 2)) = Num (dbl 2024450271203983 52)"
  by (rule root_to[where k = "- 2" and m = "8097801084815932"])
    (simp_all add: dbl_def pow2_def power2_eq_square)

lemma zero_mean_std:
  "std cr_pow (map time_diff zero_mean) (Num 0) = Inr (Num (dbl 2024450271203983 52))"
  by (simp only: zero_mean_def list.map time_diff_sample std_def average_def py_sum_def
      foldl.simps length_3 zero_mean_sub_1 zero_mean_sub_2 zero_mean_sub_3
      zero_mean_square_1 zero_mean_square_2 zero_mean_square_3 zero_mean_add_4
      zero_mean_add_5 zero_mean_add_6 zero_mean_div_2 sum.case zero_mean_root_1)

lemma zero_mean_threshold_1:
  "fmul (float_of_int 2) (Num (dbl 2024450271203983 52)) = Num (dbl 2024450271203983 51)"
  by (rule twice_to[where k = "- 1" and m = "8097801084815932"])
    (simp_all add: dbl_def pow2_def round_half_even_def)

lemma zero_mean_within_1:
  "flt (fabs (Num (dbl 3242591731706757 55))) (Num (dbl 2024450271203983 51))"
  by (simp add: dbl_def)

lemma zero_mean_within_2:
  "flt (fabs (Num (dbl (- 5314247560297185) 53))) (Num (dbl 2024450271203983 51))"
  by (simp add: dbl_def)

lemma zero_mean_within_3:
  "flt (fabs (Num (dbl 1 1))) (Num (dbl 2024450271203983 51))"
  by (simp add: dbl_def)

lemma zero_mean_kept:
  "remove_outliers cr_pow zero_mean 2 = Inr zero_mean"
proof -
  have "remove_outliers cr_pow zero_mean 2 =
      Inr (filter (\<lambda>request_pair.
             flt (fabs (fsub (time_diff request_pair) (Num 0)))
                 (Num (dbl 2024450271203983 51))) zero_mean)"
    by (simp only: remove_outliers_def zero_mean_average zero_mean_std sum.case zero_mean_threshold_1)
  also have "\<dots> = Inr zero_mean"
    by (simp only: zero_mean_def list.map filter.simps time_diff_sample
        zero_mean_sub_1 zero_mean_sub_2 zero_mean_sub_3 zero_mean_within_1
        zero_mean_within_2 zero_mean_within_3 if_True)
  finally show ?thesis .
qed

lemma zero_mean_exact_sum:
  "0 < dbl 3242591731706757 55 + dbl (- 5314247560297185) 53 + dbl 1 1"
  by (simp add: dbl_def)

lemma nine_eleven_kept:
  "remove_outliers cr_pow (map sample [9, 11]) 2 = Inr (map sample [9, 11])"
  by (simp add: remove_outliers_def float_eval)

lemma predict_zero_mean:
  "average (map time_diff zero_mean) = Inr (Num 0) \<and>
   predict cr_pow
     (\<lambda>a b. if b = map time_diff zero_mean then (Num 0, Num 0) else (NaN, NaN))
     (map sample [9, 11]) zero_mean = Inr (Some ''CACHE'')"
proof -
  have ne: "zero_mean \<noteq> []"
    by (simp add: zero_mean_def)
  have p: "fle (Num 0) alpha"
    by (simp add: alpha_value fle_def)
  show ?thesis
    unfolding predict_def nine_eleven_kept zero_mean_kept
    by (simp add: zero_mean_average ne p)
qed

subsection \<open>Lists of equal time differences\<close>

lemma tenths_add_1:
  "fadd (Num 0) (Num (dbl 3602879701896397 55)) = Num (dbl 3602879701896397 55)"
  by (rule fadd_to[where k = "- 4" and m = "7205759403792794"])
    (simp_all add: dbl_def pow2_def round_half_even_def)

lemma tenths_add_2:
  "fadd (Num (dbl 3602879701896397 55)) (Num (dbl 3602879701896397 55)) =
     Num (dbl 3602879701896397 54)"
  by (rule fadd_to[where k = "- 3" and m = "7205759403792794"])
    (simp_all add: dbl_def pow2_def round_half_even_def)

lemma tenths_add_3:
  "fadd (Num (dbl 3602879701896397 54)) (Num (dbl 3602879701896397 55)) =
     Num (dbl 1351079888211149 52)"
  by (rule fadd_to[where k = "- 2" and m = "5404319552844596"])
    (simp_all add: dbl_def pow2_def round_half_even_def)

lemma tenths_div_1:
  "fdiv (Num (dbl 1351079888211149 52)) (float_of_int 3) = Inr (Num (dbl 7205759403792795 56))"
  by (rule fdiv_to[where k = "- 4" and m = "7205759403792795"])
    (simp_all add: dbl_def pow2_def round_half_even_def)

lemma tenths_average:
  "average (map time_diff tenths) = Inr (Num (dbl 7205759403792795 56))"
  by (simp only: tenths_def list.map time_diff_sample average_def py_sum_def
      foldl.simps length_3 tenths_add_1 tenths_add_2 tenths_add_3 tenths_div_1)

lemma tenths_sub_1:
  "fsub (Num (dbl 3602879701896397 55)) (Num (dbl 7205759403792795 56)) = Num (dbl (- 1) 56)"
  by (rule fsub_to[where k = "- 56" and m = "- 4503599627370496"])
    (simp_all add: dbl_def pow2_def round_half_even_def)

lemma tenths_square_1:
  "cr_pow (Num (dbl (- 1) 56)) (Num 2) = Num (dbl 1 112)"
  by (rule square_to[where k = "- 112" and m = "4503599627370496"])
    (simp_all add: dbl_def pow2_def round_half_even_def)

lemma tenths_add_4:
  "fadd (Num 0) (Num (dbl 1 112)) = Num (dbl 1 112)"
  by (rule fadd_to[where k = "- 112" and m = "4503599627370496"])
    (simp_all add: dbl_def pow2_def round_half_even_def)

lemma tenths_add_5:
  "fadd (Num (dbl 1 112)) (Num (dbl 1 112)) = Num (dbl 1 111)"
  by (rule fadd_to[where k = "- 111" and m = "4503599627370496"])
    (simp_all add: dbl_def pow2_def round_half_even_def)

lemma tenths_add_6:
  "fadd (Num (dbl 1 111)) (Num (dbl 1 112)) = Num (dbl 3 112)"
  by (rule fadd_to[where k = "- 111" and m = "6755399441055744"])
    (simp_all add: dbl_def pow2_def round_half_even_def)

lemma tenths_div_2:
  "fdiv (Num (dbl 3 112)) (float_of_int 3) = Inr (Num (dbl 1 112))"
  by (rule fdiv_to[where k = "- 112" and m = "4503599627370496"])
    (simp_all add: dbl_def pow2_def round_half_even_def)

lemma tenths_root_1:
  "cr_pow (Num (dbl 1 112)) (Num (1 / 2)) = Num (dbl 1 56)"
  by (rule root_to[where k = "- 56" and m = "4503599627370496"])
    (simp_all add: dbl_def pow2_def power2_eq_square)

lemma tenths_std:
  "std cr_pow (map time_diff tenths) (Num (dbl 7205759403792795 56)) = Inr (Num (dbl 1 56))"
  by (simp only: tenths_def list.map time_diff_sample std_def average_def py_sum_def
      foldl.simps length_3 tenths_sub_1 tenths_square_1 tenths_add_4 tenths_add_5
      tenths_add_6 tenths_div_2 sum.case tenths_root_1)

lemma tenths_threshold_1:
  "fmul (float_of_int 2) (Num (dbl 1 56)) = Num (dbl 1 55)"
  by (rule twice_to[where k = "- 55" and m = "4503599627370496"])
    (simp_all add: dbl_def pow2_def round_half_even_def)

lemma tenths_within_1:
  "flt (fabs (Num (dbl (- 1) 56))) (Num (dbl 1 55))"
  by (simp add: dbl_def)

lemma tenths_kept:
  "remove_outliers cr_pow tenths 2 = Inr tenths"
proof -
  have "remove_outliers cr_pow tenths 2 =
      Inr (filter (\<lambda>request_pair.
             flt (fabs (fsub (time_diff request_pair) (Num (dbl 7205759403792795 56))))
                 (Num (dbl 1 55))) tenths)"
    by (simp only: remove_outliers_def tenths_average tenths_std sum.case tenths_threshold_1)
  also have "\<dots> = Inr tenths"
    by (simp only: tenths_def list.map filter.simps time_diff_sample
        tenths_sub_1 tenths_within_1 if_True)
  finally show ?thesis .
qed

text \<open>
  Claim C10, as stated: a non-empty list of equal time differences is trimmed to the
  empty list, and \<open>predict\<close> returns no verdict on it. It fails for three measurements
  of \<open>0.1\<close>: their sum is \<open>0.30000000000000004\<close> in doubles and their computed mean
  \<open>0.10000000000000002\<close>, so each lies at the distance \<open>2 ^ -56\<close> from it, the
  computed standard deviation is \<open>2 ^ -56\<close> and not 0, and all three are kept; with the
  same list in both buckets \<open>predict\<close> answers \<open>NO cache\<close>, the mean being positive.
\<close>

theorem constant_list_kept_counterexample:
  "map time_diff tenths = replicate 3 (Num (dbl 3602879701896397 55)) \<and>
   average (map time_diff tenths) = Inr (Num (dbl 7205759403792795 56)) \<and>
   std cr_pow (map time_diff tenths) (Num (dbl 7205759403792795 56)) = Inr (Num (dbl 1 56)) \<and>
   remove_outliers cr_pow tenths 2 = Inr tenths \<and>
   tenths \<noteq> [] \<and>
   predict cr_pow (\<lambda>a b. (NaN, NaN)) tenths tenths = Inr (Some ''NO cache'')"
proof -
  have c: "map time_diff tenths = replicate 3 (Num (dbl 3602879701896397 55))"
    by (simp add: tenths_def sample_def numeral_3_eq_3)
  have ne: "tenths \<noteq> []"
    by (simp add: tenths_def)
  have pos: "0 < dbl 7205759403792795 56"
    by (simp add: dbl_def)
  have p: "predict cr_pow (\<lambda>a b. (NaN, NaN)) tenths tenths = Inr (Some ''NO cache'')"
    by (simp add: predict_def tenths_kept tenths_average ne pos)
  from c ne p tenths_average tenths_std tenths_kept show ?thesis
    by blast
qed

lemma filter_constant:
  assumes "\<forall>rp \<in> set data. time_diff rp = c"
  shows "filter (\<lambda>rp. P (time_diff rp)) data = (if P c then data else [])"
  using assms by (induction data) auto

lemma zero_threshold: "\<not> flt (fabs a) (fmul (float_of_int 2) (Num 0))"
  by (cases a) (simp_all add: float_of_int_def rnd_numeral rnd_0)

text \<open>
  Claim C10, amended: a non-empty list of equal time differences is returned by
  \<open>remove_outliers\<close> either whole or empty, according to the strict comparison of the
  common distance from the computed mean with twice the computed standard deviation; it
  is empty whenever the computed standard deviation is 0; and whenever it is empty,
  \<open>predict\<close> with that list in either bucket and any non-empty list in the other
  returns no verdict.
\<close>

theorem constant_list_trim:
  assumes "data \<noteq> []" and "\<forall>rp \<in> set data. time_diff rp = c"
  shows "\<exists>avg sd.
     average (map time_diff data) = Inr avg \<and>
     std pw (map time_diff data) avg = Inr sd \<and>
     remove_outliers pw data 2 =
       Inr (if flt (fabs (fsub c avg)) (fmul (float_of_int 2) sd) then data else []) \<and>
     (sd = Num 0 \<longrightarrow> remove_outliers pw data 2 = Inr []) \<and>
     (remove_outliers pw data 2 = Inr [] \<longrightarrow>
        (\<forall>other. other \<noteq> [] \<longrightarrow>
           predict pw ttest_ind data other = Inr None \<and>
           predict pw ttest_ind other data = Inr None))"
proof -
  from remove_outliers_nonempty[OF assms(1), of pw 2] obtain avg sd where
    a: "average (map time_diff data) = Inr avg" and
    s: "std pw (map time_diff data) avg = Inr sd" and
    r: "remove_outliers pw data 2 =
          Inr (filter (\<lambda>rp. flt (fabs (fsub (time_diff rp) avg))
                                (fmul (float_of_int 2) sd)) data)"
    by blast
  have r': "remove_outliers pw data 2 =
      Inr (if flt (fabs (fsub c avg)) (fmul (float_of_int 2) sd) then data else [])"
    unfolding r
    using filter_constant[OF assms(2),
        of "\<lambda>x. flt (fabs (fsub x avg)) (fmul (float_of_int 2) sd)"]
    by simp
  have z: "sd = Num 0 \<longrightarrow> remove_outliers pw data 2 = Inr []"
    using r' zero_threshold by simp
  have p: "remove_outliers pw data 2 = Inr [] \<longrightarrow>
        (\<forall>other. other \<noteq> [] \<longrightarrow>
           predict pw ttest_ind data other = Inr None \<and>
           predict pw ttest_ind other data = Inr None)"
    using predict_none_if_trim_empty[OF assms(1), of _ pw ttest_ind]
      predict_none_if_trim_empty[OF _ assms(1), of _ pw ttest_ind]
    by blast
  from a s r' z p show ?thesis
    by blast
qed

lemma ones_average: "average (map time_diff (map sample [1, 1])) = Inr (Num 1)"
  by (simp add: float_eval)

lemma ones_std: "std cr_pow (map time_diff (map sample [1, 1])) (Num 1) = Inr (Num 0)"
  by (simp add: float_eval)

theorem constant_list_trim_witness:
  "map sample [1, 1] \<noteq> [] \<and>
   time_diff (sample 1) = Num 1 \<and>
   average (map time_diff (map sample [1, 1])) = Inr (Num 1) \<and>
   std cr_pow (map time_diff (map sample [1, 1])) (Num 1) = Inr (Num 0) \<and>
   remove_outliers cr_pow (map sample [1, 1]) 2 = Inr [] \<and>
   predict cr_pow (\<lambda>a b. (Num 0, Num 0)) (map sample [1, 1]) (map sample [-3, -1]) = Inr None \<and>
   predict cr_pow (\<lambda>a b. (Num 0, Num 0)) (map sample [-3, -1]) (map sample [1, 1]) = Inr None"
proof -
  have ne: "map sample [1, 1] \<noteq> []"
    by simp
  have c: "\<forall>rp \<in> set (map sample [1, 1]). time_diff rp = Num 1"
    by (simp add: sample_def)
  have other: "map sample [-3, -1] \<noteq> []"
    by simp
  from constant_list_trim[OF ne c, of cr_pow "\<lambda>a b. (Num 0, Num 0)"]
  obtain avg sd where
    a: "average (map time_diff (map sample [1, 1])) = Inr avg" and
    s: "std cr_pow (map time_diff (map sample [1, 1])) avg = Inr sd" and
    z: "sd = Num 0 \<longrightarrow> remove_outliers cr_pow (map sample [1, 1]) 2 = Inr []" and
    p: "remove_outliers cr_pow (map sample [1, 1]) 2 = Inr [] \<longrightarrow>
        (\<forall>other. other \<noteq> [] \<longrightarrow>
           predict cr_pow (\<lambda>a b. (Num 0, Num 0)) (map sample [1, 1]) other = Inr None \<and>
           predict cr_pow (\<lambda>a b. (Num 0, Num 0)) other (map sample [1, 1]) = Inr None)"
    by blast
  from a have avg: "avg = Num 1"
    by (simp only: ones_average sum.inject)
  from s have sd: "sd = Num 0"
    by (simp only: avg ones_std sum.inject)
  from z sd have e: "remove_outliers cr_pow (map sample [1, 1]) 2 = Inr []"
    by blast
  from p e other have
    "predict cr_pow (\<lambda>a b. (Num 0, Num 0)) (map sample [1, 1]) (map sample [-3, -1]) = Inr None \<and>
     predict cr_pow (\<lambda>a b. (Num 0, Num 0)) (map sample [-3, -1]) (map sample [1, 1]) = Inr None"
    by blast
  moreover have "time_diff (sample 1) = Num 1"
    by (simp add: sample_def)
  ultimately show ?thesis
    using ne e ones_average ones_std by blast
qed

section \<open>Properties of the label\<close>

lemma round2_int:
  assumes "\<bar>n\<bar> < 2 ^ 53"
  shows "round2 (Num (of_int n)) = Num (of_int n)"
proof -
  have "round_half_even (of_int n * 100) = n * 100"
    using round_half_even_int[of "n * 100"] by simp
  then show ?thesis
    using rnd_int[OF assms] by simp
qed

lemma round2_1: "round2 (Num 1) = Num 1"
  using round2_int[of 1] by simp

lemma round2_3: "round2 (Num 3) = Num 3"
  using round2_int[of 3] by simp

lemma round2_m1: "round2 (Num (- 1)) = Num (- 1)"
  using round2_int[of "- 1"] by simp

lemma count_second_length:
  "count_second st data_fixed = length (filter (\<lambda>p. cache_status (second p) = st) data_fixed)"
  by (induction data_fixed) (simp_all add: count_second_def)

lemma has_status_iff:
  "has_status st pairs \<longleftrightarrow> (\<exists>p \<in> set pairs. cache_status_1 p = st \<or> cache_status_2 p = st)"
  by (simp add: has_status_def list_ex_iff)

lemma label_of_cases:
  "label_of randomized fixed data_fixed =
     (if count_second ''HIT'' data_fixed > count_second ''MISS'' data_fixed then ''CACHE''
      else if has_status ''HIT'' randomized \<or> has_status ''HIT'' fixed \<or>
              has_status ''MISS'' randomized \<or> has_status ''MISS'' fixed then ''NO cache''
      else ''Unknown'')"
  by (simp add: label_of_def Let_def)

lemma analyse_bucket_Entry:
  assumes "analyse_bucket pw ttest_ind b = Inr (Entry v)"
  obtains dr df where "randomized_pairs b = Some dr" "fixed_pairs b = Some df"
    "label v = label_of (map to_request_pair dr) (map to_request_pair df) df"
    "predict pw ttest_ind (map to_request_pair dr) (map to_request_pair df) = Inr (Some (statistics_prediction v))"
  using assms
  by (auto simp: analyse_bucket_def Let_def split: option.splits if_splits sum.splits)

lemma analyse_loop_entries:
  assumes "analyse_loop pw ttest_ind data acc = Inr (Some analysis)"
    and "(k, Some v) \<in> set analysis"
  shows "(k, Some v) \<in> set acc \<or> (\<exists>b. (k, b) \<in> set data \<and> analyse_bucket pw ttest_ind b = Inr (Entry v))"
  using assms
proof (induction pw ttest_ind data acc rule: analyse_loop.induct)
  case (1 pw ttest_ind analysis)
  then show ?case by simp
next
  case (2 pw ttest_ind k b rest analysis)
  then show ?case
    by (auto split: sum.splits bucket_step.splits)
qed

lemma example_prediction:
  "predict cr_pow tt (map to_request_pair example_randomized) (map to_request_pair example_fixed) = Inr (Some ''NO cache'')"
  by (simp add: predict_def remove_outliers_def example_fixed_def example_randomized_def measurement_def
      response_def to_request_pair_def round2_1 round2_3 round2_m1 Let_def float_eval
      del: round2.simps)

lemma example_analysis:
  "analyse cr_pow (\<lambda>a b. (NaN, NaN))
     [((''https://example.com/'', ''.css'', ''PATH_PARAMETER''),
       \<lparr>randomized_pairs = Some example_randomized, fixed_pairs = Some example_fixed\<rparr>)] =
   Inr (Some [((''https://example.com/'', ''.css'', ''PATH_PARAMETER''),
       Some \<lparr>label = ''CACHE'', statistics_prediction = ''NO cache'',
             v_randomized = map to_request_pair example_randomized,
             v_fixed = map to_request_pair example_fixed\<rparr>)])"
  apply (simp add: analyse_def analyse_bucket_def example_prediction label_of_cases Let_def)
  apply (simp add: example_fixed_def example_randomized_def measurement_def response_def count_second_length)
  done

text \<open>
  Claim C4, as stated: the label is overridden to \<open>CACHE\<close> exactly when the majority of
  the second responses of the fixed bucket are hits. It fails for a bucket with one
  \<open>HIT\<close> and three \<open>-\<close>: the hits are one in four, and the label is \<open>CACHE\<close>.
\<close>

theorem label_counterexample:
  "analyse cr_pow (\<lambda>a b. (NaN, NaN))
     [((''https://example.com/'', ''.css'', ''PATH_PARAMETER''),
       \<lparr>randomized_pairs = Some example_randomized, fixed_pairs = Some example_fixed\<rparr>)] =
   Inr (Some [((''https://example.com/'', ''.css'', ''PATH_PARAMETER''),
       Some \<lparr>label = ''CACHE'', statistics_prediction = ''NO cache'',
             v_randomized = map to_request_pair example_randomized,
             v_fixed = map to_request_pair example_fixed\<rparr>)]) \<and>
   \<not> majority_hit example_fixed"
  using example_analysis
  by (simp add: example_fixed_def measurement_def response_def majority_hit_def
      count_second_length)

text \<open>
  Claim C4, amended: for every bucket that \<open>analyse\<close> gives a verdict, the label starts
  as \<open>Unknown\<close>, is set to \<open>NO cache\<close> if a measurement of the randomized or the fixed
  list has \<open>HIT\<close> or \<open>MISS\<close> as its first or second cache status, and is overridden to
  \<open>CACHE\<close> exactly when, among the second responses of the fixed list, those with the
  status \<open>HIT\<close> are strictly more than those with the status \<open>MISS\<close>.
\<close>

theorem analyse_label:
  assumes "analyse pw ttest_ind data = Inr (Some analysis)"
    and "(k, Some v) \<in> set analysis"
  shows "\<exists>dr df. (k, \<lparr>randomized_pairs = Some dr, fixed_pairs = Some df\<rparr>) \<in> set data \<and>
     label v =
       (if length (filter (\<lambda>p. cache_status (second p) = ''HIT'') df) >
           length (filter (\<lambda>p. cache_status (second p) = ''MISS'') df)
        then ''CACHE''
        else if \<exists>p \<in> set dr \<union> set df.
                  cache_status (first p) = ''HIT'' \<or> cache_status (second p) = ''HIT'' \<or>
                  cache_status (first p) = ''MISS'' \<or> cache_status (second p) = ''MISS''
        then ''NO cache'' else ''Unknown'')"
proof -
  from analyse_loop_entries[OF assms(1)[unfolded analyse_def] assms(2)]
  obtain b where b: "(k, b) \<in> set data" "analyse_bucket pw ttest_ind b = Inr (Entry v)"
    by auto
  from b(2) obtain dr df where d: "randomized_pairs b = Some dr" "fixed_pairs b = Some df"
    "label v = label_of (map to_request_pair dr) (map to_request_pair df) df"
    by (rule analyse_bucket_Entry)
  have beq: "b = \<lparr>randomized_pairs = Some dr, fixed_pairs = Some df\<rparr>"
    using d(1,2) by (cases b) simp
  have st: "has_status s (map to_request_pair l) \<longleftrightarrow>
      (\<exists>p \<in> set l. cache_status (first p) = s \<or> cache_status (second p) = s)" for s l
    by (simp add: has_status_iff to_request_pair_def)
  have "label v =
       (if length (filter (\<lambda>p. cache_status (second p) = ''HIT'') df) >
           length (filter (\<lambda>p. cache_status (second p) = ''MISS'') df)
        then ''CACHE''
        else if \<exists>p \<in> set dr \<union> set df.
                  cache_status (first p) = ''HIT'' \<or> cache_status (second p) = ''HIT'' \<or>
                  cache_status (first p) = ''MISS'' \<or> cache_status (second p) = ''MISS''
        then ''NO cache'' else ''Unknown'')"
    unfolding d(3) label_of_cases count_second_length st by auto
  with b(1) beq show ?thesis by blast
qed

theorem analyse_label_witness:
  "analyse cr_pow (\<lambda>a b. (NaN, NaN))
     [((''https://example.com/'', ''.css'', ''PATH_PARAMETER''),
       \<lparr>randomized_pairs = Some example_randomized, fixed_pairs = Some example_fixed\<rparr>)] =
   Inr (Some [((''https://example.com/'', ''.css'', ''PATH_PARAMETER''),
       Some \<lparr>label = ''CACHE'', statistics_prediction = ''NO cache'',
             v_randomized = map to_request_pair example_randomized,
             v_fixed = map to_request_pair example_fixed\<rparr>)]) \<and>
   length (filter (\<lambda>p. cache_status (second p) = ''HIT'') example_fixed) >
   length (filter (\<lambda>p. cache_status (second p) = ''MISS'') example_fixed)"
  using analyse_label[OF example_analysis, of "(''https://example.com/'', ''.css'', ''PATH_PARAMETER'')"
      "\<lparr>label = ''CACHE'', statistics_prediction = ''NO cache'',
             v_randomized = map to_request_pair example_randomized,
             v_fixed = map to_request_pair example_fixed\<rparr>"] example_analysis
  by (auto split: if_splits)

section \<open>Properties of the step after the fixed round\<close>

lemma discard_loop_inv:
  assumes "mset (filter (\<lambda>r. cache_status (first r) = ''HIT'') copy) \<subseteq># mset live"
  shows "\<exists>res. discard_loop copy live = Inr res \<and>
           filter (\<lambda>r. cache_status (first r) \<noteq> ''HIT'') res =
             filter (\<lambda>r. cache_status (first r) \<noteq> ''HIT'') live \<and>
           mset (filter (\<lambda>r. cache_status (first r) = ''HIT'') res) =
             mset (filter (\<lambda>r. cache_status (first r) = ''HIT'') live) -
             mset (filter (\<lambda>r. cache_status (first r) = ''HIT'') copy)"
  using assms
proof (induction copy arbitrary: live)
  case Nil
  then show ?case by simp
next
  case (Cons request rest)
  let ?H = "\<lambda>r. cache_status (first r) = ''HIT''"
  let ?N = "\<lambda>r. cache_status (first r) \<noteq> ''HIT''"
  show ?case
  proof (cases "?H request")
    case True
    with Cons.prems have sub: "add_mset request (mset (filter ?H rest)) \<subseteq># mset live"
      by simp
    then have mem: "request \<in># mset live" and sub': "mset (filter ?H rest) \<subseteq># mset live - {#request#}"
      unfolding insert_subset_eq_iff by blast+
    from sub' have "mset (filter ?H rest) \<subseteq># mset (remove1 request live)"
      by simp
    from Cons.IH[OF this] obtain res where res:
      "discard_loop rest (remove1 request live) = Inr res"
      "filter ?N res = filter ?N (remove1 request live)"
      "mset (filter ?H res) = mset (filter ?H (remove1 request live)) - mset (filter ?H rest)"
      by blast
    have "request \<notin> set (filter ?N live)"
      using True by simp
    then have "remove1 request (filter ?N live) = filter ?N live"
      by (rule remove1_idem)
    then have keep: "filter ?N (remove1 request live) = filter ?N live"
      by (simp only: filter_remove1)
    have "mset (filter ?H (remove1 request live)) = mset (remove1 request (filter ?H live))"
      by (simp only: filter_remove1)
    also have "\<dots> = mset (filter ?H live) - {#request#}"
      by (simp only: mset_remove1)
    finally have hits: "mset (filter ?H (remove1 request live)) = mset (filter ?H live) - {#request#}" .
    have step: "discard_loop (request # rest) live = discard_loop rest (remove1 request live)"
    proof -
      from mem have "request \<in> set live" by (simp only: set_mset_mset)
      with True show ?thesis by (simp only: discard_loop.simps if_True simp_thms)
    qed
    have "mset (filter ?H res) = mset (filter ?H live) - {#request#} - mset (filter ?H rest)"
      using res(3) hits by (simp only:)
    also have "\<dots> = mset (filter ?H live) - mset (filter ?H (request # rest))"
      using True by simp
    finally have m: "mset (filter ?H res) = mset (filter ?H live) - mset (filter ?H (request # rest))" .
    from step res(1) res(2) keep m show ?thesis
      by (intro exI[of _ res]) (simp only: simp_thms)
  next
    case False
    then have step: "discard_loop (request # rest) live = discard_loop rest live"
      and f: "filter ?H (request # rest) = filter ?H rest"
      by simp_all
    from Cons.prems f have "mset (filter ?H rest) \<subseteq># mset live" by (simp only:)
    from Cons.IH[OF this] show ?thesis
      unfolding step f .
  qed
qed

lemma discard_loop_filter:
  "discard_loop fixed fixed = Inr (filter (\<lambda>r. cache_status (first r) \<noteq> ''HIT'') fixed)"
proof -
  let ?H = "\<lambda>r. cache_status (first r) = ''HIT''"
  let ?N = "\<lambda>r. cache_status (first r) \<noteq> ''HIT''"
  have "mset (filter ?H fixed) \<subseteq># mset fixed"
    by (simp only: mset_filter multiset_filter_subset)
  from discard_loop_inv[OF this] obtain res where res:
    "discard_loop fixed fixed = Inr res"
    "filter ?N res = filter ?N fixed"
    "mset (filter ?H res) = mset (filter ?H fixed) - mset (filter ?H fixed)"
    by blast
  from res(3) have "mset (filter ?H res) = {#}"
    by (simp only: cancel_comm_monoid_add_class.diff_cancel)
  then have "filter ?H res = []"
    by (simp only: mset_zero_iff)
  then have "\<forall>r \<in> set res. ?N r"
    by (simp only: filter_empty_conv)
  then have "filter ?N res = res"
    by (simp only: filter_id_conv)
  with res(1,2) show ?thesis by (simp only:)
qed

text \<open>
  Claim C9: after the filter, the \<open>fixed\<close> list holds exactly the measurements whose
  first response was not a hit; when fewer than 5 are left, the controller goes on to
  the next URL and nothing is written or analysed for this one.
\<close>

theorem fixed_round_filter:
  assumes "sr_fixed sent = Some fixed"
  shows "\<exists>kept c eff'.
     after_fixed_round args_analyse filename sent eff = Inr (c, sent\<lparr>sr_fixed := Some kept\<rparr>, eff') \<and>
     kept = filter (\<lambda>r. cache_status (first r) \<noteq> ''HIT'') fixed \<and>
     (\<forall>r \<in> set kept. cache_status (first r) \<noteq> ''HIT'') \<and>
     (if length kept < 5 then c = Next_url \<and> eff' = eff
      else c = Stop \<and> files eff' = files eff @ [(filename, sent\<lparr>sr_fixed := Some kept\<rparr>)])"
  using assms
  by (simp add: after_fixed_round_def discard_loop_filter)

theorem fixed_round_filter_witness:
  "sr_fixed example_sent = Some example_round \<and>
   after_fixed_round True ''output/example.com-2023-01-01-00-00-00.json'' example_sent no_effects =
     Inr (Next_url,
          example_sent\<lparr>sr_fixed := Some [measurement (-2) ''MISS'' ''HIT'',
             measurement (-3) ''MISS'' ''HIT'', measurement (-2) ''MISS'' ''HIT'',
             measurement (-4) ''-'' ''HIT'']\<rparr>,
          no_effects)"
proof -
  have h: "sr_fixed example_sent = Some example_round"
    by (simp add: example_sent_def)
  have k: "filter (\<lambda>r. cache_status (first r) \<noteq> ''HIT'') example_round =
      [measurement (-2) ''MISS'' ''HIT'', measurement (-3) ''MISS'' ''HIT'',
       measurement (-2) ''MISS'' ''HIT'', measurement (-4) ''-'' ''HIT'']"
    by (simp add: example_round_def measurement_def response_def)
  from fixed_round_filter[OF h, of True "''output/example.com-2023-01-01-00-00-00.json''" no_effects]
  show ?thesis
    unfolding k using h by auto
qed

section \<open>Properties of the request descriptor\<close>

lemma set_url_https:
  assumes "u_scheme (urlparse url) = ''https''" and "u_port (urlparse url) = Inr p"
  shows "req_port (fst (set_url urlparse self url)) = Some (port_or p 443) \<and>
         snd (set_url urlparse self url) = None"
  using assms by (simp add: set_url_def Let_def)

lemma set_url_raises:
  assumes "u_scheme (urlparse url) = ''https''" and "u_port (urlparse url) = Inl e"
  shows "set_url urlparse self url =
           (self\<lparr>req_url := Some url, req_scheme := Some ''https'',
                  req_host := Some (u_netloc (urlparse url))\<rparr>, Some e)"
  using assms by (simp add: set_url_def Let_def)

lemma set_url_other_scheme:
  assumes "u_scheme (urlparse url) \<noteq> ''https''"
  shows "req_port (fst (set_url urlparse self url)) = Some 80 \<and>
         snd (set_url urlparse self url) = None"
  using assms by (simp add: set_url_def Let_def)

text \<open>
  Claim C7 at the URL \<open>http://example.com:8080/\<close>: the authority names the port 8080,
  and \<open>set_url\<close> sets the port 80.
\<close>

theorem set_url_http_explicit_port:
  "new_request (\<lambda>url. example_http_url) ''GET'' ''http://example.com:8080/'' None [] =
     Inr \<lparr>req_method = ''GET'', req_url = Some ''http://example.com:8080/'',
          req_scheme = Some ''http'', req_host = Some ''example.com:8080'',
          req_port = Some 80, req_path = Some ''/'', req_query = Some [],
          req_headers = Map.empty, req_data = []\<rparr> \<and>
   port_spec example_http_url = Some 8080"
  by (simp add: new_request_def set_url_def example_http_url_def port_spec_def Let_def)

section \<open>Properties of the redirect loop\<close>

lemma on_redirect_counts:
  assumes "on_redirect urlparse urlunparse t h1 h2 = (t', e)"
  shows "rounds t' = rounds t \<and>
     ((following_redirects t' = following_redirects t \<and> redirects_followed t' = redirects_followed t) \<or>
      (following_redirects t' \<and> redirects_followed t' = redirects_followed t + 1 \<and> e = None))"
  using assms by (auto simp: on_redirect_def split: sum.splits if_splits)

lemma process_results_counts:
  assumes "process_results urlparse urlunparse h t rs = (t', e)"
  shows "rounds t' = rounds t \<and>
     ((following_redirects t' = following_redirects t \<and> redirects_followed t' = redirects_followed t) \<or>
      (following_redirects t' \<and> redirects_followed t' = redirects_followed t + 1 \<and> e = None))"
  using assms
proof (induction urlparse urlunparse h t rs rule: process_results.induct)
  case (1 urlparse urlunparse cache_headers_heuristics s)
  then show ?case by simp
next
  case (2 urlparse urlunparse cache_headers_heuristics s td h1 h2 b1 b2 results)
  then show ?case
    by (auto simp: Let_def split: sum.splits bool.splits if_splits dest!: on_redirect_counts)
qed

lemma loop_body_counts:
  assumes "loop_body urlparse urlunparse h net s = (s', e, left)"
  shows "rounds s' = rounds s + 1 \<and>
     ((\<not> following_redirects s' \<and> redirects_followed s' = redirects_followed s) \<or>
      (following_redirects s' \<and> redirects_followed s' = redirects_followed s + 1 \<and> e = None \<and> \<not> left))"
  using assms
  by (auto simp: loop_body_def Let_def split: round.splits prod.splits option.splits
      dest!: process_results_counts)

lemma loop_body_inv:
  assumes "loop_inv s" "following_redirects s" "redirects_followed s < 5"
    and "loop_body urlparse urlunparse h net s = (s', e, left)"
  shows "loop_inv s'"
  using loop_body_counts[OF assms(4)] assms(1-3)
  by (auto simp: loop_inv_def)

lemma follow_redirects_inv:
  "loop_inv s \<Longrightarrow> loop_inv (fst (follow_redirects urlparse urlunparse h net s))"
proof (induction urlparse urlunparse h net s rule: follow_redirects.induct)
  case (1 urlparse urlunparse h net s)
  show ?case
  proof (cases "following_redirects s \<and> redirects_followed s < 5")
    case True
    obtain s' e left where b: "loop_body urlparse urlunparse h net s = (s', e, left)"
      by (cases "loop_body urlparse urlunparse h net s") auto
    have i: "loop_inv s'"
      using loop_body_inv[OF "1.prems" _ _ b] True by simp
    show ?thesis
    proof (cases left)
      case True
      with \<open>following_redirects s \<and> redirects_followed s < 5\<close> b i show ?thesis
        by (subst follow_redirects.simps) simp
    next
      case False
      have "loop_inv (fst (follow_redirects urlparse urlunparse h net s'))"
        by (rule "1.IH"[OF True b[symmetric] refl False i])
      with \<open>following_redirects s \<and> redirects_followed s < 5\<close> b False show ?thesis
        by (subst follow_redirects.simps) simp
    qed
  next
    case False
    with "1.prems" show ?thesis
      by (subst follow_redirects.simps) auto
  qed
qed

lemma self_redirect_body:
  assumes "url1 s = ''https://example.com/a''" "url2 s = ''https://example.com/a''"
  shows "loop_body urlparse urlunparse (\<lambda>h. ''-'') (self_redirect ''https://example.com/a'') s =
     (s\<lparr>following_redirects := True, redirects_followed := redirects_followed s + 1,
        rounds := rounds s + 1\<rparr>, None, False)"
  using assms
  by (simp add: loop_body_def self_redirect_def Let_def is_redirect_def lookup_def
      on_redirect_def redirect_target_def startswith_def)

lemma self_redirect_run:
  "follow_redirects urlparse urlunparse (\<lambda>h. ''-'') (self_redirect ''https://example.com/a'')
     (start_pair ''https://example.com/a'' ''https://example.com/a'' None False) =
   (\<lparr>url1 = ''https://example.com/a'', url2 = ''https://example.com/a'',
     following_redirects = True, redirects_followed = 5, randomized_bucket = None,
     cache_headers = False, rounds = 5\<rparr>, None)"
  by (simp add: follow_redirects.simps self_redirect_body start_pair_def)

text \<open>
  Claim C8: the redirect loop of a pair always ends, after at most 5 rounds; the counter
  of redirects goes up by one with each redirect followed and never beyond 5, whatever
  the server answers, a redirect to the requested URL included.
\<close>

theorem redirect_loop_bounded:
  "rounds (fst (follow_redirects urlparse urlunparse h net (start_pair u1 u2 bucket seen))) \<le> 5 \<and>
   redirects_followed (fst (follow_redirects urlparse urlunparse h net (start_pair u1 u2 bucket seen))) \<le> 5 \<and>
   redirects_followed (fst (follow_redirects urlparse urlunparse h net (start_pair u1 u2 bucket seen)))
     \<le> rounds (fst (follow_redirects urlparse urlunparse h net (start_pair u1 u2 bucket seen))) \<and>
   rounds (fst (follow_redirects urlparse urlunparse h net (start_pair u1 u2 bucket seen)))
     \<le> redirects_followed (fst (follow_redirects urlparse urlunparse h net (start_pair u1 u2 bucket seen))) + 1"
proof -
  have "loop_inv (start_pair u1 u2 bucket seen)"
    by (simp add: loop_inv_def start_pair_def)
  from follow_redirects_inv[OF this, of urlparse urlunparse h net]
  show ?thesis
    by (auto simp: loop_inv_def split: if_splits)
qed

section \<open>Properties of the cache buster\<close>

lemma choice_member: "seq \<noteq> [] \<Longrightarrow> fst (choice R pos seq) \<in> set seq"
  by (simp add: choice_def)

lemma ascii_letters_nonempty: "ascii_letters \<noteq> []"
  by (simp add: ascii_letters_def)

lemma choice_letter: "fst (choice R pos ascii_letters) \<in> set ascii_letters"
  by (rule choice_member[OF ascii_letters_nonempty])

lemma choice_pos: "snd (choice R pos seq) = Suc pos"
  by (simp add: choice_def)

lemma generate_random_string_props:
  "generate_random_string R pos n = (s, pos') \<Longrightarrow>
     length s = n \<and> set s \<subseteq> set ascii_letters \<and> pos' = pos + n"
proof (induction n arbitrary: pos s pos')
  case 0
  then show ?case by simp
next
  case (Suc n)
  obtain c p1 where c: "choice R pos ascii_letters = (c, p1)"
    by (cases "choice R pos ascii_letters") auto
  obtain s1 p2 where r: "generate_random_string R p1 n = (s1, p2)"
    by (cases "generate_random_string R p1 n") auto
  from c have "c \<in> set ascii_letters" "p1 = Suc pos"
    using choice_letter[of R pos] choice_pos[of R pos ascii_letters] by simp_all
  with Suc.IH[OF r] Suc.prems c r show ?case
    by auto
qed

lemma unique_loop_sound:
  assumes "unique_loop R len ledger cache_buster pos = Some y"
  shows "fst y \<notin> set ledger \<and> fst y \<noteq> [] \<and>
         (fst y = cache_buster \<or> (length (fst y) = len \<and> set (fst y) \<subseteq> set ascii_letters))"
proof (rule unique_loop.raw_induct[where P = "\<lambda>R len ledger cache_buster pos y.
         fst y \<notin> set ledger \<and> fst y \<noteq> [] \<and>
         (fst y = cache_buster \<or> (length (fst y) = len \<and> set (fst y) \<subseteq> set ascii_letters))", OF _ assms],
       goal_cases)
  case (1 f R len ledger cache_buster pos y)
  show ?case
  proof (cases "cache_buster \<in> set ledger \<or> cache_buster = []")
    case True
    obtain s pos' where g: "generate_random_string R pos len = (s, pos')"
      by (cases "generate_random_string R pos len") auto
    with True 1(2) have "f R len ledger s pos' = Some y"
      by simp
    from 1(1)[OF this] generate_random_string_props[OF g] show ?thesis
      by auto
  next
    case False
    with 1(2) show ?thesis by auto
  qed
qed

lemma unique_loop_fresh:
  "cache_buster \<notin> set ledger \<Longrightarrow> cache_buster \<noteq> [] \<Longrightarrow>
     unique_loop R len ledger cache_buster pos = Some (cache_buster, pos)"
  by (subst unique_loop.simps) simp

lemma unique_loop_reroll:
  "cache_buster \<in> set ledger \<or> cache_buster = [] \<Longrightarrow>
     generate_random_string R pos len = (s, pos') \<Longrightarrow>
     unique_loop R len ledger cache_buster pos = unique_loop R len ledger s pos'"
  by (subst unique_loop.simps) simp

lemma unique_loop_returns:
  assumes "fst (generate_random_string R (pos + k * len) len) \<notin> set ledger"
    and "fst (generate_random_string R (pos + k * len) len) \<noteq> []"
    and "cache_buster \<in> set ledger \<or> cache_buster = []"
  shows "\<exists>y. unique_loop R len ledger cache_buster pos = Some y"
  using assms
proof (induction k arbitrary: pos cache_buster)
  case 0
  obtain s pos' where g: "generate_random_string R pos len = (s, pos')"
    by (cases "generate_random_string R pos len") auto
  with 0 have "s \<notin> set ledger" "s \<noteq> []" by simp_all
  then show ?case
    using unique_loop_reroll[OF 0(3) g] unique_loop_fresh by simp
next
  case (Suc k)
  obtain s pos' where g: "generate_random_string R pos len = (s, pos')"
    by (cases "generate_random_string R pos len") auto
  then have p: "pos' = pos + len"
    using generate_random_string_props by blast
  show ?case
  proof (cases "s \<in> set ledger \<or> s = []")
    case True
    have "\<exists>y. unique_loop R len ledger s pos' = Some y"
      using Suc.prems(1,2) True by (intro Suc.IH) (simp_all add: p ac_simps)
    then show ?thesis
      using unique_loop_reroll[OF Suc.prems(3) g] by simp
  next
    case False
    then show ?thesis
      using unique_loop_reroll[OF Suc.prems(3) g] unique_loop_fresh by simp
  qed
qed

lemma get_unique_cache_buster_sound:
  assumes "get_unique_cache_buster R len st = Some (tok, st')"
  shows "tok \<notin> set (cache_busters st) \<and> tok \<noteq> [] \<and> length tok = len \<and>
         set tok \<subseteq> set ascii_letters \<and> cache_busters st' = cache_busters st @ [tok]"
proof -
  from assms obtain pos where u: "unique_loop R len (cache_busters st) [] (rng_pos st) = Some (tok, pos)"
    and st': "st' = \<lparr>cache_busters = cache_busters st @ [tok], rng_pos = pos\<rparr>"
    by (auto simp: get_unique_cache_buster_def split: option.splits)
  from unique_loop_sound[OF u] st' show ?thesis by auto
qed

lemma get_unique_cache_buster_returns:
  assumes "fst (generate_random_string R (rng_pos st + k * len) len) \<notin> set (cache_busters st)"
    and "fst (generate_random_string R (rng_pos st + k * len) len) \<noteq> []"
  shows "\<exists>tok st'. get_unique_cache_buster R len st = Some (tok, st')"
proof -
  from unique_loop_returns[OF assms, of "[]"]
  obtain y where "unique_loop R len (cache_busters st) [] (rng_pos st) = Some y"
    by auto
  then show ?thesis
    by (cases y) (simp add: get_unique_cache_buster_def)
qed

lemma unique_loop_length_0:
  assumes "unique_loop R len ledger cache_buster pos = Some y"
  shows "len = 0 \<longrightarrow> cache_buster \<noteq> [] \<and> cache_buster \<notin> set ledger"
proof (rule unique_loop.raw_induct[where P = "\<lambda>R len ledger cache_buster pos y.
         len = 0 \<longrightarrow> cache_buster \<noteq> [] \<and> cache_buster \<notin> set ledger", OF _ assms],
       goal_cases)
  case (1 f R len ledger cache_buster pos y)
  show ?case
  proof (intro impI)
    assume z: "len = 0"
    have False if bad: "cache_buster \<in> set ledger \<or> cache_buster = []"
    proof -
      from bad 1(2) z have "f R len ledger [] pos = Some y" by simp
      from 1(1)[OF this] z show False by simp
    qed
    then show "cache_buster \<noteq> [] \<and> cache_buster \<notin> set ledger" by blast
  qed
qed

lemma get_unique_cache_buster_length_0: "get_unique_cache_buster R 0 st = None"
proof (cases "unique_loop R 0 (cache_busters st) [] (rng_pos st)")
  case None
  then show ?thesis by (simp add: get_unique_cache_buster_def)
next
  case (Some y)
  from unique_loop_length_0[OF this] show ?thesis by simp
qed

text \<open>
  Claim C5: the tokens returned by any run of calls of \<open>get_unique_cache_buster\<close>, on
  whatever instances, are pairwise distinct and differ from every token issued before;
  each has the length asked for (5 by default) and consists of ASCII letters, was not in
  the ledger when it was drawn, and is in the ledger when it is returned.
\<close>

theorem tokens_unique:
  assumes "issue_tokens R calls st = Some (toks, st')"
  shows "(distinct (cache_busters st) \<longrightarrow> distinct (cache_busters st')) \<and>
         distinct toks \<and> set toks \<inter> set (cache_busters st) = {} \<and>
         cache_busters st' = cache_busters st @ toks \<and>
         map length toks = map snd calls \<and>
         (\<forall>tok \<in> set toks. set tok \<subseteq> set ascii_letters)"
  using assms
proof (induction calls arbitrary: st toks st')
  case Nil
  then show ?case by simp
next
  case (Cons call calls)
  obtain self len where call: "call = (self, len)" by (cases call)
  from Cons.prems call obtain tok st1 toks1 where
    g: "get_unique_cache_buster R len st = Some (tok, st1)"
    and r: "issue_tokens R calls st1 = Some (toks1, st')"
    and t: "toks = tok # toks1"
    by (auto split: option.splits)
  from get_unique_cache_buster_sound[OF g] Cons.IH[OF r] t call show ?case
    by auto
qed

lemma roll_0: "generate_random_string example_tape 0 5 = (''aaaaa'', 5)"
  by code_simp
lemma roll_5: "generate_random_string example_tape 5 5 = (''aaaaa'', 10)"
  by code_simp
lemma roll_10: "generate_random_string example_tape 10 5 = (''bbbbb'', 15)"
  by code_simp

lemma example_call_1:
  "get_unique_cache_buster example_tape 5 initial_state =
     Some (''aaaaa'', \<lparr>cache_busters = [''aaaaa''], rng_pos = 5\<rparr>)"
  by (simp add: get_unique_cache_buster_def initial_state_def
      unique_loop_reroll[OF _ roll_0] unique_loop_fresh)

lemma example_call_2:
  "get_unique_cache_buster example_tape 5 \<lparr>cache_busters = [''aaaaa''], rng_pos = 5\<rparr> =
     Some (''bbbbb'', \<lparr>cache_busters = [''aaaaa'', ''bbbbb''], rng_pos = 15\<rparr>)"
  by (simp add: get_unique_cache_buster_def
      unique_loop_reroll[OF _ roll_5] unique_loop_reroll[OF _ roll_10] unique_loop_fresh)

lemma example_run:
  "issue_tokens example_tape
     [(example_instance ''a.example'', 5), (example_instance ''b.example'', 5)] initial_state =
   Some ([''aaaaa'', ''bbbbb''], \<lparr>cache_busters = [''aaaaa'', ''bbbbb''], rng_pos = 15\<rparr>)"
  by (simp add: example_call_1 example_call_2)

theorem tokens_unique_witness:
  "issue_tokens example_tape
     [(example_instance ''a.example'', 5), (example_instance ''b.example'', 5)] initial_state =
   Some ([''aaaaa'', ''bbbbb''], \<lparr>cache_busters = [''aaaaa'', ''bbbbb''], rng_pos = 15\<rparr>) \<and>
   distinct (cache_busters initial_state) \<and>
   distinct [''aaaaa'', ''bbbbb''] \<and>
   length ''aaaaa'' = 5 \<and> length ''bbbbb'' = 5 \<and>
   set ''aaaaa'' \<subseteq> set ascii_letters \<and> set ''bbbbb'' \<subseteq> set ascii_letters"
  using tokens_unique[OF example_run] example_run
  by (simp add: initial_state_def)

text \<open>
  The headers that the two loops leave alone: the loop over \<open>TEST_HEADERS\<close> writes those
  keys only, and the Vary loop skips every name that is a substring of a lower-cased
  test header, so it never reaches the branch of \<open>cache_bust_header\<close> for \<open>forwarded\<close>.
\<close>

lemma bust_test_headers_other:
  assumes "bust_test_headers R site hs headers st = Some (headers', st')" and "k \<notin> set hs"
  shows "headers' k = headers k"
  using assms
proof (induction hs arbitrary: headers st)
  case Nil
  then show ?case by simp
next
  case (Cons header rest)
  then show ?case
    by (auto split: option.splits)
qed

lemma bust_vary_headers_skipped:
  assumes "bust_vary_headers R site items headers st = Some (headers', st')"
    and "skipped k"
  shows "headers' k = headers k"
  using assms
proof (induction items arbitrary: headers st)
  case Nil
  then show ?case by simp
next
  case (Cons item rest)
  show ?case
  proof (cases "skipped (lower (strip item))")
    case True
    with Cons show ?thesis
      by (simp add: skipped_def Let_def)
  next
    case False
    then have ne: "lower (strip item) \<noteq> k"
      using Cons.prems(2) by auto
    from False Cons.prems(1) obtain v st1 where
      "bust_vary_headers R site rest (headers(lower (strip item) \<mapsto> v)) st1 = Some (headers', st')"
      by (auto simp: skipped_def Let_def split: option.splits)
    from Cons.IH[OF this Cons.prems(2)] ne show ?thesis
      by simp
  qed
qed

lemma skipped_forwarded: "skipped ''forwarded''"
  unfolding skipped_def TEST_HEADERS_def by code_simp

lemma skipped_host: "skipped ''host''"
  unfolding skipped_def TEST_HEADERS_def by code_simp

lemma forwarded_not_test_header: "''forwarded'' \<notin> set TEST_HEADERS"
  by (simp add: TEST_HEADERS_def)

lemma vary_skipped_untouched:
  assumes "cache_bust_request R urlparse urlunparse url headers cookies vary path st =
             Some ((url', headers', cookies'), st')"
    and "skipped k" and "k \<notin> set TEST_HEADERS"
  shows "headers' k = headers k"
proof -
  from assms(1) obtain site st2 h1 st3 st4 where
    t: "bust_test_headers R site TEST_HEADERS headers st2 = Some (h1, st3)" and
    v: "bust_vary_headers R site (split_on CHR '','' vary) h1 st4 = Some (headers', st')"
    by (auto simp: cache_bust_request_def Let_def split: option.splits)
  from bust_vary_headers_skipped[OF v assms(2)] bust_test_headers_other[OF t assms(3)]
  show ?thesis by simp
qed

lemma fresh_call:
  assumes "generate_random_string R pos len = (s, pos')"
    and "s \<notin> set ledger" and "s \<noteq> []"
  shows "get_unique_cache_buster R len \<lparr>cache_busters = ledger, rng_pos = pos\<rparr> =
           Some (s, \<lparr>cache_busters = ledger @ [s], rng_pos = pos'\<rparr>)"
  using assms
  by (simp add: get_unique_cache_buster_def unique_loop_reroll[OF _ assms(1)] unique_loop_fresh)

lemma rolls:
  "generate_random_string counting_tape 0 5 = (''aaaaa'', 5)"
  "generate_random_string counting_tape 5 5 = (''bbbbb'', 10)"
  "generate_random_string counting_tape 10 5 = (''ccccc'', 15)"
  "generate_random_string counting_tape 15 5 = (''ddddd'', 20)"
  "generate_random_string counting_tape 20 5 = (''eeeee'', 25)"
  "generate_random_string counting_tape 25 5 = (''fffff'', 30)"
  "generate_random_string counting_tape 30 5 = (''ggggg'', 35)"
  "generate_random_string counting_tape 35 5 = (''hhhhh'', 40)"
  "generate_random_string counting_tape 40 5 = (''iiiii'', 45)"
  "generate_random_string counting_tape 45 5 = (''jjjjj'', 50)"
  by code_simp+

lemma vary_items:
  "split_on CHR '','' ''Accept-Encoding, Forwarded'' = [''Accept-Encoding'', '' Forwarded'']"
  "lower (strip ''Accept-Encoding'') = ''accept-encoding''"
  "lower (strip '' Forwarded'') = ''forwarded''"
  "lower ''accept-encoding'' = ''accept-encoding''"
  by code_simp+

lemma not_skipped_accept_encoding: "\<not> skipped ''accept-encoding''"
  unfolding skipped_def TEST_HEADERS_def by code_simp

lemma bust_vary_skip:
  "skipped (lower (strip item)) \<Longrightarrow>
     bust_vary_headers R site (item # rest) headers st = bust_vary_headers R site rest headers st"
  by (simp add: skipped_def Let_def)

lemma bust_vary_mutate:
  "\<not> skipped (lower (strip item)) \<Longrightarrow>
     bust_vary_headers R site (item # rest) headers st =
       (case cache_bust_header R site (lower (strip item))
               (case headers (lower (strip item)) of Some v \<Rightarrow> v | None \<Rightarrow> []) st of
          None \<Rightarrow> None
        | Some (v, st') \<Rightarrow> bust_vary_headers R site rest (headers(lower (strip item) \<mapsto> v)) st')"
  by (simp add: skipped_def Let_def)

lemma header_value_accept_encoding: "header_value site ''accept-encoding'' [] tok = tok"
  by (simp add: header_value_def vary_items)

lemma example_query:
  "cache_bust_query counting_tape urlparse urlunparse url initial_state =
     Some (urlunparse ((parts_of (urlparse url))
             \<lparr>u_query := u_query (urlparse url) @
                 (if u_query (urlparse url) \<noteq> [] then ''&'' else []) @ ''aaaaa=aaaaa''\<rparr>),
           \<lparr>cache_busters = [''aaaaa''], rng_pos = 5\<rparr>)"
  by (simp add: cache_bust_query_def initial_state_def fresh_call[OF rolls(1)] Let_def)

lemma example_test_headers:
  "bust_test_headers counting_tape site TEST_HEADERS Map.empty
     \<lparr>cache_busters = [''aaaaa''], rng_pos = 5\<rparr> =
   Some (busted_test_headers site,
         \<lparr>cache_busters = [''aaaaa'', ''bbbbb'', ''ccccc'', ''ddddd'', ''eeeee'', ''fffff'',
                            ''ggggg'', ''hhhhh''], rng_pos = 40\<rparr>)"
  by (simp add: TEST_HEADERS_def cache_bust_header_def busted_test_headers_def
      fresh_call[OF rolls(2)] fresh_call[OF rolls(3)] fresh_call[OF rolls(4)]
      fresh_call[OF rolls(5)] fresh_call[OF rolls(6)] fresh_call[OF rolls(7)]
      fresh_call[OF rolls(8)])

lemma example_cookies:
  "cache_bust_cookies counting_tape Map.empty True
     \<lparr>cache_busters = [''aaaaa'', ''bbbbb'', ''ccccc'', ''ddddd'', ''eeeee'', ''fffff'',
                        ''ggggg'', ''hhhhh''], rng_pos = 40\<rparr> =
   Some ([''iiiii'' \<mapsto> ''iiiii''],
         \<lparr>cache_busters = [''aaaaa'', ''bbbbb'', ''ccccc'', ''ddddd'', ''eeeee'', ''fffff'',
                            ''ggggg'', ''hhhhh'', ''iiiii''], rng_pos = 45\<rparr>)"
  by (simp add: cache_bust_cookies_def fresh_call[OF rolls(9)])

lemma example_vary:
  "bust_vary_headers counting_tape site [''Accept-Encoding'', '' Forwarded'']
     (busted_test_headers site)
     \<lparr>cache_busters = [''aaaaa'', ''bbbbb'', ''ccccc'', ''ddddd'', ''eeeee'', ''fffff'',
                        ''ggggg'', ''hhhhh'', ''iiiii''], rng_pos = 45\<rparr> =
   Some ((busted_test_headers site)(''accept-encoding'' \<mapsto> ''jjjjj''),
         \<lparr>cache_busters = [''aaaaa'', ''bbbbb'', ''ccccc'', ''ddddd'', ''eeeee'', ''fffff'',
                            ''ggggg'', ''hhhhh'', ''iiiii'', ''jjjjj''], rng_pos = 50\<rparr>)"
proof -
  have none: "busted_test_headers site ''accept-encoding'' = None"
    by (simp add: busted_test_headers_def)
  show ?thesis
    unfolding bust_vary_mutate[OF not_skipped_accept_encoding[folded vary_items(2)]]
      bust_vary_skip[OF skipped_forwarded[folded vary_items(3)]]
    by (simp add: vary_items none cache_bust_header_def fresh_call[OF rolls(10)]
        header_value_accept_encoding)
qed

lemma vary_never_mutates_forwarded:
  assumes "cache_bust_request R urlparse urlunparse url headers cookies vary path st =
             Some ((url', headers', cookies'), st')"
  shows "headers' ''forwarded'' = headers ''forwarded''"
  using vary_skipped_untouched[OF assms skipped_forwarded forwarded_not_test_header] .

text \<open>
  Claim C6 at the Vary value \<open>Accept-Encoding, Forwarded\<close>, with no headers and no
  cookies given: \<open>accept-encoding\<close> gets a fresh token, \<open>forwarded\<close> is not in the
  returned headers, whose keys are the test headers and \<open>accept-encoding\<close>.
\<close>

theorem vary_forwarded_not_mutated:
  "map_option (\<lambda>((u, h, c), st). (h ''accept-encoding'', h ''forwarded'', dom h))
     (cache_bust_request counting_tape urlparse urlunparse url Map.empty Map.empty
        ''Accept-Encoding, Forwarded'' False initial_state) =
   Some (Some ''jjjjj'', None, set TEST_HEADERS \<union> {''accept-encoding''})"
  by (simp add: cache_bust_request_def example_query example_test_headers example_cookies
      vary_items(1) example_vary Let_def
      del: bust_vary_headers.simps bust_test_headers.simps)
     (auto simp add: busted_test_headers_def TEST_HEADERS_def)

end
